theory Spec2Isabelle
  imports Complex_Main
begin

section \<open>Python values used by ocr\_app.py\<close>

text \<open>
  A Python \<open>str\<close> is a sequence of Unicode code points; it is modelled as a list of
  natural numbers, so that \<open>str.strip\<close> sees the same characters as Python does.
  \<open>lit\<close> embeds an ASCII literal of the source.
\<close>

type_synonym pystr = "nat list"

definition lit :: "string \<Rightarrow> pystr" where
  "lit cs = map of_char cs"

text \<open>
  \<open>str.isspace\<close> for one code point: the characters Python treats as whitespace
  (bidirectional class WS, B or S, or category Zs).
\<close>

definition py_isspace :: "nat \<Rightarrow> bool" where
  "py_isspace c =
     (c \<in> set [9, 10, 11, 12, 13, 28, 29, 30, 31, 32, 133, 160, 5760,
                8232, 8233, 8239, 8287, 12288]
      \<or> (8192 \<le> c \<and> c \<le> 8202))"

text \<open>\<open>s.strip()\<close>: leading and trailing whitespace removed.\<close>

definition py_strip :: "pystr \<Rightarrow> pystr" where
  "py_strip s = rev (dropWhile py_isspace (rev (dropWhile py_isspace s)))"

text \<open>\<open>sep.join(xs)\<close>.\<close>

fun py_join :: "pystr \<Rightarrow> pystr list \<Rightarrow> pystr" where
  "py_join sep [] = []"
| "py_join sep [x] = x"
| "py_join sep (x # y # ys) = x @ sep @ py_join sep (y # ys)"

text \<open>\<open>str(n)\<close> for an integer: decimal digits, with a minus sign when negative.\<close>

fun digits :: "nat \<Rightarrow> pystr" where
  "digits n = (if n < 10 then [48 + n] else digits (n div 10) @ [48 + n mod 10])"

declare digits.simps [simp del]

definition py_str_int :: "int \<Rightarrow> pystr" where
  "py_str_int i = (if i < 0 then 45 # digits (nat (- i)) else digits (nat i))"

text \<open>
  Canvas coordinates and the zoom level are Python floats. Every finite float is a
  rational number, and the source only compares the coordinates (\<open>min\<close>, \<open>max\<close>) and
  truncates them (\<open>int\<close>), so they are modelled as rationals. The zoom level only takes
  values that are multiples of 0.25 between 0.25 and 3.0 (shown below), on which the
  float operations \<open>+ 0.25\<close>, \<open>- 0.25\<close> and \<open>* 1.5\<close> are exact.
  \<open>int(x)\<close> truncates towards zero.
\<close>

definition py_int :: "rat \<Rightarrow> int" where
  "py_int x = (if 0 \<le> x then \<lfloor>x\<rfloor> else \<lceil>x\<rceil>)"

text \<open>
  Exceptions. \<open>ImportError\<close> also stands for its subclass \<open>ModuleNotFoundError\<close>;
  \<open>OtherError\<close> is any exception class the source never names (\<open>OSError\<close>,
  \<open>RuntimeError\<close>, ...), with its message.
\<close>

datatype pyexc = ImportError | ValueError pystr | IndexError | OtherError pystr

section \<open>The collaborators: PyMuPDF documents, bitmaps, the environment\<close>

text \<open>
  A \<open>fitz.Document\<close>: the file it was opened from, its number of pages, and whether
  \<open>close()\<close> was called on it. The application holds the only reference to it.
\<close>

record pdf_doc =
  doc_name :: pystr
  page_count :: nat
  is_closed :: bool

text \<open>
  The operations of the document the source uses. PyMuPDF's \<open>Document\<close> defines
  \<open>__len__\<close> (the page count) and no \<open>__bool__\<close>, so the truth value of a document
  in \<open>if self.pdf_document:\<close> is \<open>len(doc) != 0\<close>; every operation on a closed
  document raises \<open>ValueError("document closed")\<close>.
\<close>

definition doc_closed_error :: pyexc where
  "doc_closed_error = ValueError (lit ''document closed'')"

definition doc_len :: "pdf_doc \<Rightarrow> pyexc + int" where
  "doc_len d = (if is_closed d then Inl doc_closed_error else Inr (int (page_count d)))"

definition doc_bool :: "pdf_doc \<Rightarrow> pyexc + bool" where
  "doc_bool d = (case doc_len d of Inl e \<Rightarrow> Inl e | Inr n \<Rightarrow> Inr (n \<noteq> 0))"

text \<open>The truth value of the field \<open>self.pdf_document\<close>, which is \<open>None\<close> or a document.\<close>

definition truthy_doc :: "pdf_doc option \<Rightarrow> pyexc + bool" where
  "truthy_doc od = (case od of None \<Rightarrow> Inr False | Some d \<Rightarrow> doc_bool d)"

definition doc_close :: "pdf_doc \<Rightarrow> pyexc + pdf_doc" where
  "doc_close d = (if is_closed d then Inl doc_closed_error else Inr (d\<lparr>is_closed := True\<rparr>))"

text \<open>\<open>doc[i]\<close> for the page indices the application produces (never negative).\<close>

definition doc_getitem :: "pdf_doc \<Rightarrow> int \<Rightarrow> pyexc + nat" where
  "doc_getitem d i =
     (if is_closed d then Inl doc_closed_error
      else if 0 \<le> i \<and> i < int (page_count d) then Inr (nat i)
      else Inl IndexError)"

text \<open>
  A bitmap is identified by how it was produced: \<open>Pixmap name p z\<close> is page \<open>p\<close> of the
  document opened from \<open>name\<close>, rendered with \<open>fitz.Matrix(z, z)\<close>; \<open>Crop img l u r b\<close>
  is \<open>img.crop((l, u, r, b))\<close>. The renderer is deterministic (spec, 4.4).
\<close>

datatype image = Pixmap pystr nat rat | Crop image int int int int

text \<open>
  What the outside world answers: \<open>fitz.open\<close> (the page count of the document, or
  the exception raised), the three OCR backends, the two optional imports (\<open>None\<close>:
  the module was imported), and the \<open>with open(...) as f: f.write(text)\<close> block
  (\<open>None\<close>: written).
\<close>

record env =
  fitz_open :: "pystr \<Rightarrow> pyexc + nat"
  image_to_string :: "image \<Rightarrow> pyexc + pystr"
  readtext :: "image \<Rightarrow> pyexc + pystr list"
  recognize_pil :: "image \<Rightarrow> pyexc + pystr"
  import_easyocr :: "pyexc option"
  import_winocr :: "pyexc option"
  file_write :: "pystr \<Rightarrow> pystr \<Rightarrow> pyexc option"

section \<open>class OCREngine\<close>

definition TESSERACT :: pystr where
  "TESSERACT = lit ''Tesseract''"

definition EASYOCR :: pystr where
  "EASYOCR = lit ''EasyOCR''"

definition WINDOWS_OCR :: pystr where
  "WINDOWS_OCR = lit ''Windows OCR''"

text \<open>
  \<open>try: import m ... except ImportError: pass\<close>: \<open>Inr True\<close> when the module was
  imported, \<open>Inr False\<close> when the import raised \<open>ImportError\<close>, and the exception
  itself when the import raised anything else (only \<open>ImportError\<close> is caught).
\<close>

definition try_import :: "pyexc option \<Rightarrow> pyexc + bool" where
  "try_import r =
     (case r of
        None \<Rightarrow> Inr True
      | Some ImportError \<Rightarrow> Inr False
      | Some e \<Rightarrow> Inl e)"

definition get_available_engines :: "env \<Rightarrow> pyexc + pystr list" where
  "get_available_engines env =
     (let engines = [TESSERACT] in
      case try_import (import_easyocr env) of
        Inl e \<Rightarrow> Inl e
      | Inr have_easyocr \<Rightarrow>
          (let engines = (if have_easyocr then engines @ [EASYOCR] else engines) in
           case try_import (import_winocr env) of
             Inl e \<Rightarrow> Inl e
           | Inr have_winocr \<Rightarrow>
               Inr (if have_winocr then engines @ [WINDOWS_OCR] else engines)))"

text \<open>
  An exception leaving \<open>perform_ocr\<close> is either the \<open>ValueError\<close> of its own last
  branch or whatever the chosen backend raised; the constructor records the raise site.
  \<open>exc_of\<close> is the Python exception object.
\<close>

datatype ocr_error = UnknownEngine pystr | BackendRaised pyexc

definition exc_of :: "ocr_error \<Rightarrow> pyexc" where
  "exc_of e =
     (case e of
        UnknownEngine n \<Rightarrow> ValueError (lit ''Unknown OCR engine: '' @ n)
      | BackendRaised x \<Rightarrow> x)"

definition backend :: "pyexc + pystr \<Rightarrow> ocr_error + pystr" where
  "backend r = (case r of Inl e \<Rightarrow> Inl (BackendRaised e) | Inr t \<Rightarrow> Inr t)"

definition tesseract_ocr :: "env \<Rightarrow> image \<Rightarrow> ocr_error + pystr" where
  "tesseract_ocr env img = backend (image_to_string env img)"

text \<open>
  The construction of the shared EasyOCR reader is part of what \<open>readtext\<close> answers;
  the lines it returns are joined with newlines.
\<close>

definition easyocr_ocr :: "env \<Rightarrow> image \<Rightarrow> ocr_error + pystr" where
  "easyocr_ocr env img =
     (case readtext env img of
        Inl e \<Rightarrow> Inl (BackendRaised e)
      | Inr results \<Rightarrow> Inr (py_join [10] results))"

definition windows_ocr :: "env \<Rightarrow> image \<Rightarrow> ocr_error + pystr" where
  "windows_ocr env img = backend (recognize_pil env img)"

definition perform_ocr :: "env \<Rightarrow> image \<Rightarrow> pystr \<Rightarrow> ocr_error + pystr" where
  "perform_ocr env img engine_name =
     (if engine_name = TESSERACT then tesseract_ocr env img
      else if engine_name = EASYOCR then easyocr_ocr env img
      else if engine_name = WINDOWS_OCR then windows_ocr env img
      else Inl (UnknownEngine engine_name))"

section \<open>class PDFOCRApp: the state\<close>

text \<open>
  The status line, the dialogs and the other calls out of the application are kept as
  structured values, one constructor for each message or call of the source.
\<close>

datatype ocr_source =
    PageSource int pystr
  | SelectionSource pystr
  | DocumentSource pystr

datatype status =
    Ready
  | Loaded pystr
  | SelectionStatus int int int int
  | SelectionCleared
  | PerformingPage pystr
  | PerformingSelection pystr
  | PerformingDocument pystr
  | ProcessingPage int int pystr
  | OcrComplete ocr_source
  | OcrFailed
  | SavedTo pystr

datatype warning = OpenPdfFirst | MakeSelectionFirst | NoTextToSave

datatype error_dialog = FailedToOpen pyexc | OcrErrorDialog pyexc | FailedToSave pyexc

text \<open>
  The calls the claims speak about, in the order they happen: a warning or error
  dialog, \<open>page.get_pixmap\<close> (document, page, matrix scale), the bitmap put on the
  canvas by \<open>display_page\<close>, a call of \<open>OCREngine.perform_ocr\<close>, the file-save
  dialog, a completed write of the text file, and an exception that leaves a Tk callback
  (Tk reports it and goes on with the state as it is).
\<close>

datatype effect =
    ShowWarning warning
  | ShowError error_dialog
  | GetPixmap pystr nat rat
  | CanvasImage image
  | PerformOcr image pystr
  | AskSaveAsFilename
  | FileWritten pystr pystr
  | CallbackException pyexc

text \<open>
  The fields of \<open>PDFOCRApp\<close>. \<open>text_output\<close> is the content of the output pane
  and \<open>effects\<close> the calls made so far. \<open>photo_image\<close> is always the Tk copy of
  \<open>current_image\<close> and is not kept apart; the labels and the preview rectangle on the
  canvas are presentation only.
\<close>

record app =
  pdf_document :: "pdf_doc option"
  current_page :: int
  total_pages :: int
  current_image :: "image option"
  selection_start :: "(rat \<times> rat) option"
  selection_rect :: "(rat \<times> rat \<times> rat \<times> rat) option"
  zoom_level :: rat
  available_engines :: "pystr list"
  selected_engine :: pystr
  text_output :: pystr
  status_var :: status
  effects :: "effect list"

definition emit :: "effect \<Rightarrow> app \<Rightarrow> app" where
  "emit x s = s\<lparr>effects := effects s @ [x]\<rparr>"

definition uncaught :: "pyexc \<Rightarrow> app \<Rightarrow> app" where
  "uncaught e s = emit (CallbackException e) s"

text \<open>The calls made between two states of one run.\<close>

definition emitted :: "app \<Rightarrow> app \<Rightarrow> effect list" where
  "emitted s s' = drop (length (effects s)) (effects s')"

text \<open>\<open>__init__\<close>, after \<open>get_available_engines\<close> returned \<open>engines\<close>.\<close>

definition initial :: "pystr list \<Rightarrow> pystr \<Rightarrow> app" where
  "initial engines first =
     \<lparr>pdf_document = None, current_page = 0, total_pages = 0, current_image = None,
      selection_start = None, selection_rect = None, zoom_level = 1,
      available_engines = engines, selected_engine = first, text_output = [],
      status_var = Ready, effects = []\<rparr>"

definition app_init :: "env \<Rightarrow> pyexc + app" where
  "app_init env =
     (case get_available_engines env of
        Inl e \<Rightarrow> Inl e
      | Inr engines \<Rightarrow>
          (case engines of
             [] \<Rightarrow> Inl IndexError
           | first # _ \<Rightarrow> Inr (initial engines first)))"

section \<open>Display, navigation and zoom\<close>

text \<open>
  \<open>display_page\<close> returns the exception when the document cannot be asked for its
  page; the state is then as it was, since every assignment comes after the render.
\<close>

definition display_page :: "app \<Rightarrow> pyexc + app" where
  "display_page s =
     (case truthy_doc (pdf_document s) of
        Inl e \<Rightarrow> Inl e
      | Inr False \<Rightarrow> Inr s
      | Inr True \<Rightarrow>
          (case pdf_document s of
             None \<Rightarrow> Inr s
           | Some d \<Rightarrow>
               (case doc_getitem d (current_page s) of
                  Inl e \<Rightarrow> Inl e
                | Inr p \<Rightarrow>
                    (let scale = zoom_level s * (3 / 2);
                         img = Pixmap (doc_name d) p scale;
                         s1 = emit (GetPixmap (doc_name d) p scale) s;
                         s2 = s1\<lparr>current_image := Some img\<rparr>;
                         s3 = emit (CanvasImage img) s2
                     in Inr (s3\<lparr>selection_rect := None, selection_start := None\<rparr>)))))"

text \<open>A handler that ends with \<open>self.display_page()\<close>.\<close>

definition then_display :: "app \<Rightarrow> app" where
  "then_display s = (case display_page s of Inl e \<Rightarrow> uncaught e s | Inr s' \<Rightarrow> s')"

definition prev_page :: "app \<Rightarrow> app" where
  "prev_page s =
     (case truthy_doc (pdf_document s) of
        Inl e \<Rightarrow> uncaught e s
      | Inr b \<Rightarrow>
          if b \<and> current_page s > 0
          then then_display (s\<lparr>current_page := current_page s - 1\<rparr>)
          else s)"

definition next_page :: "app \<Rightarrow> app" where
  "next_page s =
     (case truthy_doc (pdf_document s) of
        Inl e \<Rightarrow> uncaught e s
      | Inr b \<Rightarrow>
          if b \<and> current_page s < total_pages s - 1
          then then_display (s\<lparr>current_page := current_page s + 1\<rparr>)
          else s)"

definition zoom_in :: "app \<Rightarrow> app" where
  "zoom_in s = then_display (s\<lparr>zoom_level := min 3 (zoom_level s + 1 / 4)\<rparr>)"

definition zoom_out :: "app \<Rightarrow> app" where
  "zoom_out s = then_display (s\<lparr>zoom_level := max (1 / 4) (zoom_level s - 1 / 4)\<rparr>)"

section \<open>Opening a document\<close>

text \<open>
  The \<open>try\<close> block of \<open>open_pdf\<close>, statement by statement. An exception is
  returned with the state at the moment it was raised.
\<close>

definition close_previous :: "app \<Rightarrow> pyexc \<times> app + app" where
  "close_previous s =
     (case pdf_document s of
        None \<Rightarrow> Inr s
      | Some d \<Rightarrow>
          (case doc_bool d of
             Inl e \<Rightarrow> Inl (e, s)
           | Inr False \<Rightarrow> Inr s
           | Inr True \<Rightarrow>
               (case doc_close d of
                  Inl e \<Rightarrow> Inl (e, s)
                | Inr d' \<Rightarrow> Inr (s\<lparr>pdf_document := Some d'\<rparr>))))"

definition open_pdf_try :: "env \<Rightarrow> pystr \<Rightarrow> app \<Rightarrow> pyexc \<times> app + app" where
  "open_pdf_try env file_path s =
     (case close_previous s of
        Inl x \<Rightarrow> Inl x
      | Inr s1 \<Rightarrow>
          (case fitz_open env file_path of
             Inl e \<Rightarrow> Inl (e, s1)
           | Inr n \<Rightarrow>
               (let d = \<lparr>doc_name = file_path, page_count = n, is_closed = False\<rparr>;
                    s2 = s1\<lparr>pdf_document := Some d\<rparr>
                in case doc_len d of
                     Inl e \<Rightarrow> Inl (e, s2)
                   | Inr len \<Rightarrow>
                       (let s3 = s2\<lparr>total_pages := len, current_page := 0, zoom_level := 1\<rparr>
                        in case display_page s3 of
                             Inl e \<Rightarrow> Inl (e, s3)
                           | Inr s4 \<Rightarrow> Inr (s4\<lparr>status_var := Loaded file_path\<rparr>)))))"

text \<open>\<open>file_path\<close> is what the file dialog returned; the empty string when cancelled.\<close>

definition open_pdf :: "env \<Rightarrow> pystr \<Rightarrow> app \<Rightarrow> app" where
  "open_pdf env file_path s =
     (if file_path = [] then s
      else case open_pdf_try env file_path s of
             Inl (e, s') \<Rightarrow> emit (ShowError (FailedToOpen e)) s'
           | Inr s' \<Rightarrow> s')"

section \<open>The selection\<close>

definition on_mouse_press :: "rat \<times> rat \<Rightarrow> app \<Rightarrow> app" where
  "on_mouse_press xy s =
     (case current_image s of
        None \<Rightarrow> s
      | Some _ \<Rightarrow> s\<lparr>selection_start := Some xy\<rparr>)"

text \<open>\<open>on_mouse_drag\<close> only redraws the preview rectangle on the canvas.\<close>

definition on_mouse_drag :: "rat \<times> rat \<Rightarrow> app \<Rightarrow> app" where
  "on_mouse_drag xy s = s"

definition on_mouse_release :: "rat \<times> rat \<Rightarrow> app \<Rightarrow> app" where
  "on_mouse_release xy s =
     (case selection_start s of
        None \<Rightarrow> s
      | Some (x1, y1) \<Rightarrow>
          (let (x2, y2) = xy;
               rect = (min x1 x2, min y1 y2, max x1 x2, max y1 y2)
           in s\<lparr>selection_rect := Some rect,
                status_var :=
                  (case rect of (a, b, c, d) \<Rightarrow>
                     SelectionStatus (py_int a) (py_int b) (py_int c) (py_int d))\<rparr>))"

definition clear_selection :: "app \<Rightarrow> app" where
  "clear_selection s =
     s\<lparr>selection_rect := None, selection_start := None, status_var := SelectionCleared\<rparr>"

section \<open>The three OCR operations\<close>

text \<open>
  Each operation starts a thread that calls the engine and hands the outcome back to
  the interface thread. The model runs the body of the thread and the callbacks it
  schedules at once, in the order of the source: one operation at a time.
\<close>

definition display_ocr_result :: "pystr \<Rightarrow> ocr_source \<Rightarrow> app \<Rightarrow> app" where
  "display_ocr_result t source s = s\<lparr>text_output := t, status_var := OcrComplete source\<rparr>"

text \<open>The end of every \<open>do_ocr\<close>: the result is shown, or the \<open>except\<close> branch runs.\<close>

definition finish_ocr :: "pyexc + pystr \<Rightarrow> ocr_source \<Rightarrow> app \<Rightarrow> app" where
  "finish_ocr r source s =
     (case r of
        Inr t \<Rightarrow> display_ocr_result t source s
      | Inl e \<Rightarrow> (emit (ShowError (OcrErrorDialog e)) s)\<lparr>status_var := OcrFailed\<rparr>)"

definition raised :: "ocr_error + pystr \<Rightarrow> pyexc + pystr" where
  "raised r = (case r of Inl e \<Rightarrow> Inl (exc_of e) | Inr t \<Rightarrow> Inr t)"

definition ocr_current_page :: "env \<Rightarrow> app \<Rightarrow> app" where
  "ocr_current_page env s =
     (case current_image s of
        None \<Rightarrow> emit (ShowWarning OpenPdfFirst) s
      | Some img \<Rightarrow>
          (let engine = selected_engine s;
               s1 = s\<lparr>status_var := PerformingPage engine\<rparr>;
               s2 = emit (PerformOcr img engine) s1
           in finish_ocr (raised (perform_ocr env img engine))
                (PageSource (current_page s + 1) engine) s2))"

definition ocr_selection :: "env \<Rightarrow> app \<Rightarrow> app" where
  "ocr_selection env s =
     (case current_image s of
        None \<Rightarrow> emit (ShowWarning OpenPdfFirst) s
      | Some img \<Rightarrow>
          (case selection_rect s of
             None \<Rightarrow> emit (ShowWarning MakeSelectionFirst) s
           | Some (x1, y1, x2, y2) \<Rightarrow>
               (let engine = selected_engine s;
                    s1 = s\<lparr>status_var := PerformingSelection engine\<rparr>;
                    cropped = Crop img (py_int x1) (py_int y1) (py_int x2) (py_int y2);
                    s2 = emit (PerformOcr cropped engine) s1
                in finish_ocr (raised (perform_ocr env cropped engine))
                     (SelectionSource engine) s2)))"

text \<open>One entry of \<open>all_text\<close>: \<open>f"--- Page {page_num + 1} ---\n{text}\n"\<close>.\<close>

definition page_entry :: "int \<Rightarrow> pystr \<Rightarrow> pystr" where
  "page_entry page_num t =
     lit ''--- Page '' @ py_str_int (page_num + 1) @ lit '' ---'' @ [10] @ t @ [10]"

text \<open>
  The loop \<open>for page_num in range(self.total_pages)\<close>, over the page numbers still to
  come, with \<open>all_text\<close> so far. It stops at the first exception.
\<close>

fun ocr_pages ::
  "env \<Rightarrow> pdf_doc \<Rightarrow> pystr \<Rightarrow> int \<Rightarrow> int list \<Rightarrow> pystr list \<Rightarrow> app \<Rightarrow> (pyexc + pystr list) \<times> app"
where
  "ocr_pages env d engine tp [] all_text s = (Inr all_text, s)"
| "ocr_pages env d engine tp (page_num # rest) all_text s =
     (let s1 = s\<lparr>status_var := ProcessingPage (page_num + 1) tp engine\<rparr> in
      case doc_getitem d page_num of
        Inl e \<Rightarrow> (Inl e, s1)
      | Inr p \<Rightarrow>
          (let img = Pixmap (doc_name d) p (3 / 2);
               s2 = emit (GetPixmap (doc_name d) p (3 / 2)) s1;
               s3 = emit (PerformOcr img engine) s2
           in case perform_ocr env img engine of
                Inl e \<Rightarrow> (Inl (exc_of e), s3)
              | Inr t \<Rightarrow>
                  ocr_pages env d engine tp rest (all_text @ [page_entry page_num t]) s3))"

definition ocr_entire_document :: "env \<Rightarrow> app \<Rightarrow> app" where
  "ocr_entire_document env s =
     (case truthy_doc (pdf_document s) of
        Inl e \<Rightarrow> uncaught e s
      | Inr False \<Rightarrow> emit (ShowWarning OpenPdfFirst) s
      | Inr True \<Rightarrow>
          (case pdf_document s of
             None \<Rightarrow> emit (ShowWarning OpenPdfFirst) s
           | Some d \<Rightarrow>
               (let engine = selected_engine s;
                    s1 = s\<lparr>status_var := PerformingDocument engine\<rparr>
                in case ocr_pages env d engine (total_pages s) [0 ..total_pages s - 1] [] s1 of
                     (Inl e, s2) \<Rightarrow> finish_ocr (Inl e) (DocumentSource engine) s2
                   | (Inr all_text, s2) \<Rightarrow>
                       finish_ocr (Inr (py_join [10] all_text)) (DocumentSource engine) s2)))"

section \<open>Saving the text\<close>

text \<open>
  Tk's \<open>text_output.get(1.0, tk.END)\<close> is the content of the pane followed by the
  newline Tk keeps at the end of every text widget. \<open>file_path\<close> is what the file-save
  dialog returns if it is shown.
\<close>

definition save_text :: "env \<Rightarrow> pystr \<Rightarrow> app \<Rightarrow> app" where
  "save_text env file_path s =
     (let t = py_strip (text_output s @ [10]) in
      if t = [] then emit (ShowWarning NoTextToSave) s
      else
        (let s1 = emit AskSaveAsFilename s in
         if file_path = [] then s1
         else case file_write env file_path t of
                None \<Rightarrow> (emit (FileWritten file_path t) s1)\<lparr>status_var := SavedTo file_path\<rparr>
              | Some e \<Rightarrow> emit (ShowError (FailedToSave e)) s1))"

section \<open>The event loop\<close>

text \<open>
  What the user can do: the buttons, the engine box (read-only: one of the available
  engines) and the mouse on the canvas. A file dialog's answer comes with the event.
\<close>

datatype event =
    OpenPdf pystr
  | PrevPage
  | NextPage
  | ZoomIn
  | ZoomOut
  | ClearSelection
  | SaveText pystr
  | SelectEngine pystr
  | OcrCurrentPage
  | OcrSelection
  | OcrEntireDocument
  | MousePress "rat \<times> rat"
  | MouseDrag "rat \<times> rat"
  | MouseRelease "rat \<times> rat"

definition select_engine :: "pystr \<Rightarrow> app \<Rightarrow> app" where
  "select_engine e s = (if e \<in> set (available_engines s) then s\<lparr>selected_engine := e\<rparr> else s)"

fun step :: "env \<Rightarrow> event \<Rightarrow> app \<Rightarrow> app" where
  "step env (OpenPdf file_path) s = open_pdf env file_path s"
| "step env PrevPage s = prev_page s"
| "step env NextPage s = next_page s"
| "step env ZoomIn s = zoom_in s"
| "step env ZoomOut s = zoom_out s"
| "step env ClearSelection s = clear_selection s"
| "step env (SaveText file_path) s = save_text env file_path s"
| "step env (SelectEngine e) s = select_engine e s"
| "step env OcrCurrentPage s = ocr_current_page env s"
| "step env OcrSelection s = ocr_selection env s"
| "step env OcrEntireDocument s = ocr_entire_document env s"
| "step env (MousePress xy) s = on_mouse_press xy s"
| "step env (MouseDrag xy) s = on_mouse_drag xy s"
| "step env (MouseRelease xy) s = on_mouse_release xy s"

fun run :: "env \<Rightarrow> event list \<Rightarrow> app \<Rightarrow> app" where
  "run env [] s = s"
| "run env (e # es) s = run env es (step env e s)"

section \<open>Well-formed states and example inputs\<close>

text \<open>
  A document is open and usable: it is not closed, \<open>total_pages\<close> is its page count
  and the page index is one of its pages.
\<close>

definition viewing :: "app \<Rightarrow> bool" where
  "viewing s =
     (case pdf_document s of
        None \<Rightarrow> False
      | Some d \<Rightarrow> \<not> is_closed d \<and> total_pages s = int (page_count d)
                  \<and> 0 \<le> current_page s \<and> current_page s < total_pages s)"

text \<open>The multiples of 0.25 from 0.25 to 3.0.\<close>

definition zoom_values :: "rat list" where
  "zoom_values = map (\<lambda>k. rat_of_nat k / 4) [1 ..< 13]"

text \<open>
  An environment for the examples: one readable file \<open>a.pdf\<close> of three pages, the
  Tesseract and EasyOCR engines installed, Windows OCR missing.
\<close>

definition demo_env :: env where
  "demo_env =
     \<lparr>fitz_open = (\<lambda>p. if p = lit ''a.pdf'' then Inr 3
                        else Inl (OtherError (lit ''cannot open file''))),
      image_to_string = (\<lambda>img. case img of
                            Pixmap n p z \<Rightarrow> Inr (lit ''text of page '' @ digits p)
                          | Crop i a b c d \<Rightarrow> Inr (lit ''text of a region'')),
      readtext = (\<lambda>img. Inr [lit ''line one'', lit ''line two'']),
      recognize_pil = (\<lambda>img. Inl (OtherError (lit ''no recognizer''))),
      import_easyocr = None,
      import_winocr = Some ImportError,
      file_write = (\<lambda>p t. None)\<rparr>"

definition demo_start :: app where
  "demo_start = initial [TESSERACT, EASYOCR] TESSERACT"

definition demo_open :: app where
  "demo_open = open_pdf demo_env (lit ''a.pdf'') demo_start"

text \<open>The example document shown at its last page.\<close>

definition demo_last :: app where
  "demo_last = run demo_env [NextPage, NextPage] demo_open"

text \<open>
  The same environment on a machine where \<open>import easyocr\<close> fails while loading a
  native library: the exception is an \<open>OSError\<close>, not an \<open>ImportError\<close>.
\<close>

definition broken_easyocr_env :: env where
  "broken_easyocr_env = demo_env\<lparr>import_easyocr := Some (OtherError (lit ''DLL load failed''))\<rparr>"

text \<open>The example document with text in the output pane: padded with blanks, and blank.\<close>

definition demo_padded :: app where
  "demo_padded = demo_open\<lparr>text_output := lit ''  two words  ''\<rparr>"

definition demo_blank :: app where
  "demo_blank = demo_open\<lparr>text_output := lit '' ''\<rparr>"

text \<open>
  With the example document open at its last page, the user picks \<open>b.pdf\<close>, which
  \<open>fitz.open\<close> cannot open.
\<close>

definition demo_failed_open :: app where
  "demo_failed_open = open_pdf demo_env (lit ''b.pdf'') demo_last"

text \<open>The example document with a region selected by the mouse.\<close>

definition demo_selected :: app where
  "demo_selected = on_mouse_release (52, 181 / 2) (on_mouse_press (43 / 4, 20) demo_open)"

text \<open>
  The text of the whole document as the specification words it (4.3): for each page,
  in page order, a section made of the header \<open>--- Page N ---\<close> followed by that
  page's text, the sections joined with a blank line between them; \<open>N\<close> is the number
  of the first page of \<open>ts\<close>.
\<close>

definition spec_header :: "nat \<Rightarrow> pystr" where
  "spec_header N = lit ''--- Page '' @ digits N @ lit '' ---''"

fun spec_sections :: "nat \<Rightarrow> pystr list \<Rightarrow> pystr" where
  "spec_sections N [] = []"
| "spec_sections N [t] = spec_header N @ [10] @ t @ [10]"
| "spec_sections N (t # u # ts) =
     spec_header N @ [10] @ t @ [10] @ [10] @ spec_sections (Suc N) (u # ts)"

text \<open>
  One handler, from \<open>s\<close> to \<open>s'\<close>, either leaves the bitmap and the selection as
  they were and puts nothing on the canvas, or ends with a bitmap shown and no selection.
\<close>

definition kept_or_cleared :: "app \<Rightarrow> app \<Rightarrow> bool" where
  "kept_or_cleared s s' =
     ((current_image s' = current_image s \<and> selection_rect s' = selection_rect s
         \<and> selection_start s' = selection_start s
         \<and> (\<forall>img. CanvasImage img \<notin> set (emitted s s')))
      \<or> (selection_rect s' = None \<and> selection_start s' = None \<and> current_image s' \<noteq> None))"

text \<open>
  Bookkeeping for the selection: \<open>selected_on\<close> remembers the bitmap that was on the
  canvas when \<open>on_mouse_release\<close> last stored a rectangle, and \<open>run_tracked\<close> runs the
  application with this memory beside it. The application itself keeps no such field.
  \<open>selection_current\<close>: a rectangle, if there is one, was drawn on the bitmap now shown.
\<close>

fun selected_on :: "event \<Rightarrow> app \<Rightarrow> image option \<Rightarrow> image option" where
  "selected_on (MouseRelease xy) s g = (if selection_start s = None then g else current_image s)"
| "selected_on e s g = g"

fun run_tracked :: "env \<Rightarrow> event list \<Rightarrow> app \<Rightarrow> image option \<Rightarrow> app \<times> image option" where
  "run_tracked env [] s g = (s, g)"
| "run_tracked env (e # es) s g = run_tracked env es (step env e s) (selected_on e s g)"

definition selection_current :: "app \<Rightarrow> image option \<Rightarrow> bool" where
  "selection_current s g =
     ((selection_rect s = None \<or> (g = current_image s \<and> current_image s \<noteq> None))
      \<and> (selection_start s = None \<or> current_image s \<noteq> None))"

text \<open>
  The page index is valid for the open document, or no usable document is open (the
  invariant of the data model, spec 3).
\<close>

definition page_valid :: "app \<Rightarrow> bool" where
  "page_valid s = (truthy_doc (pdf_document s) \<noteq> Inr True \<or> viewing s)"

text \<open>
  The example document with a region selected, after the user then picked \<open>b.pdf\<close>,
  which \<open>fitz.open\<close> cannot open.
\<close>

definition demo_stale :: app where
  "demo_stale = open_pdf demo_env (lit ''b.pdf'') demo_selected"

section \<open>Basic facts\<close>

lemma lit_nonempty [simp]: "(lit (c # cs) = []) = False" "([] = lit (c # cs)) = False"
  by (simp_all add: lit_def)

lemma engine_names_distinct:
  "TESSERACT \<noteq> EASYOCR" "TESSERACT \<noteq> WINDOWS_OCR" "EASYOCR \<noteq> WINDOWS_OCR"
  by (simp_all add: TESSERACT_def EASYOCR_def WINDOWS_OCR_def lit_def)

lemma demo_init: "app_init demo_env = Inr demo_start"
  by (simp add: app_init_def get_available_engines_def demo_env_def try_import_def demo_start_def)

lemma demo_open_eq:
  "demo_open =
     \<lparr>pdf_document = Some \<lparr>doc_name = lit ''a.pdf'', page_count = 3, is_closed = False\<rparr>,
      current_page = 0, total_pages = 3,
      current_image = Some (Pixmap (lit ''a.pdf'') 0 (3 / 2)),
      selection_start = None, selection_rect = None, zoom_level = 1,
      available_engines = [TESSERACT, EASYOCR], selected_engine = TESSERACT, text_output = [],
      status_var = Loaded (lit ''a.pdf''),
      effects = [GetPixmap (lit ''a.pdf'') 0 (3 / 2), CanvasImage (Pixmap (lit ''a.pdf'') 0 (3 / 2))]\<rparr>"
  by (simp add: demo_open_def demo_start_def open_pdf_def open_pdf_try_def close_previous_def
      initial_def demo_env_def doc_len_def display_page_def truthy_doc_def doc_bool_def
      doc_getitem_def emit_def Let_def)

lemma demo_open_viewing: "viewing demo_open"
  by (simp add: demo_open_eq viewing_def)

subsection \<open>What each handler leaves alone\<close>

lemma emit_frame [simp]:
  "pdf_document (emit x s) = pdf_document s"
  "current_page (emit x s) = current_page s"
  "total_pages (emit x s) = total_pages s"
  "current_image (emit x s) = current_image s"
  "selection_start (emit x s) = selection_start s"
  "selection_rect (emit x s) = selection_rect s"
  "zoom_level (emit x s) = zoom_level s"
  "available_engines (emit x s) = available_engines s"
  "selected_engine (emit x s) = selected_engine s"
  "text_output (emit x s) = text_output s"
  "status_var (emit x s) = status_var s"
  "effects (emit x s) = effects s @ [x]"
  by (simp_all add: emit_def)

lemma then_display_frame [simp]:
  "current_page (then_display s) = current_page s"
  "total_pages (then_display s) = total_pages s"
  "zoom_level (then_display s) = zoom_level s"
  "pdf_document (then_display s) = pdf_document s"
  "text_output (then_display s) = text_output s"
  "available_engines (then_display s) = available_engines s"
  "selected_engine (then_display s) = selected_engine s"
  by (simp_all add: then_display_def display_page_def uncaught_def Let_def
      split: sum.splits bool.splits option.splits)

lemma ocr_pages_frame:
  "pdf_document (snd (ocr_pages env d e tp ps acc s)) = pdf_document s
   \<and> current_page (snd (ocr_pages env d e tp ps acc s)) = current_page s
   \<and> total_pages (snd (ocr_pages env d e tp ps acc s)) = total_pages s
   \<and> current_image (snd (ocr_pages env d e tp ps acc s)) = current_image s
   \<and> selection_start (snd (ocr_pages env d e tp ps acc s)) = selection_start s
   \<and> selection_rect (snd (ocr_pages env d e tp ps acc s)) = selection_rect s
   \<and> zoom_level (snd (ocr_pages env d e tp ps acc s)) = zoom_level s
   \<and> available_engines (snd (ocr_pages env d e tp ps acc s)) = available_engines s
   \<and> selected_engine (snd (ocr_pages env d e tp ps acc s)) = selected_engine s
   \<and> text_output (snd (ocr_pages env d e tp ps acc s)) = text_output s"
proof (induction ps arbitrary: acc s)
  case Nil
  show ?case by simp
next
  case (Cons p ps)
  show ?case
    by (simp add: Let_def Cons.IH split: sum.splits)
qed

lemma finish_ocr_frame [simp]:
  "pdf_document (finish_ocr r src s) = pdf_document s"
  "current_page (finish_ocr r src s) = current_page s"
  "total_pages (finish_ocr r src s) = total_pages s"
  "current_image (finish_ocr r src s) = current_image s"
  "selection_start (finish_ocr r src s) = selection_start s"
  "selection_rect (finish_ocr r src s) = selection_rect s"
  "zoom_level (finish_ocr r src s) = zoom_level s"
  "available_engines (finish_ocr r src s) = available_engines s"
  "selected_engine (finish_ocr r src s) = selected_engine s"
  by (simp_all add: finish_ocr_def display_ocr_result_def split: sum.splits)

lemma ocr_entire_document_frame [simp]:
  "pdf_document (ocr_entire_document env s) = pdf_document s"
  "current_page (ocr_entire_document env s) = current_page s"
  "total_pages (ocr_entire_document env s) = total_pages s"
  "current_image (ocr_entire_document env s) = current_image s"
  "selection_start (ocr_entire_document env s) = selection_start s"
  "selection_rect (ocr_entire_document env s) = selection_rect s"
  "zoom_level (ocr_entire_document env s) = zoom_level s"
  "available_engines (ocr_entire_document env s) = available_engines s"
  "selected_engine (ocr_entire_document env s) = selected_engine s"
proof -
  have sndeq: "\<And>d e tp ps acc s0 r s2. ocr_pages env d e tp ps acc s0 = (r, s2) \<Longrightarrow>
      s2 = snd (ocr_pages env d e tp ps acc s0)" by simp
  show "pdf_document (ocr_entire_document env s) = pdf_document s"
    "current_page (ocr_entire_document env s) = current_page s"
    "total_pages (ocr_entire_document env s) = total_pages s"
    "current_image (ocr_entire_document env s) = current_image s"
    "selection_start (ocr_entire_document env s) = selection_start s"
    "selection_rect (ocr_entire_document env s) = selection_rect s"
    "zoom_level (ocr_entire_document env s) = zoom_level s"
    "available_engines (ocr_entire_document env s) = available_engines s"
    "selected_engine (ocr_entire_document env s) = selected_engine s"
    by (auto simp: ocr_entire_document_def uncaught_def Let_def ocr_pages_frame
        split: sum.splits bool.splits option.splits prod.splits dest!: sndeq)
qed

lemma zoom_frames [simp]:
  "zoom_level (save_text env p s) = zoom_level s"
  "zoom_level (ocr_current_page env s) = zoom_level s"
  "zoom_level (ocr_selection env s) = zoom_level s"
  "zoom_level (on_mouse_press xy s) = zoom_level s"
  "zoom_level (on_mouse_drag xy s) = zoom_level s"
  "zoom_level (on_mouse_release xy s) = zoom_level s"
  "zoom_level (clear_selection s) = zoom_level s"
  "zoom_level (select_engine e s) = zoom_level s"
  "zoom_level (prev_page s) = zoom_level s"
  "zoom_level (next_page s) = zoom_level s"
  by (simp_all add: save_text_def ocr_current_page_def ocr_selection_def on_mouse_press_def
      on_mouse_drag_def on_mouse_release_def clear_selection_def select_engine_def
      prev_page_def next_page_def uncaught_def Let_def
      split: option.splits prod.splits sum.splits)

lemma open_pdf_zoom:
  "zoom_level (open_pdf env p s) = zoom_level s \<or> zoom_level (open_pdf env p s) = 1"
  by (auto simp: open_pdf_def open_pdf_try_def close_previous_def Let_def display_page_def
      split: sum.splits bool.splits option.splits prod.splits)

lemma zoom_in_level [simp]: "zoom_level (zoom_in s) = min 3 (zoom_level s + 1 / 4)"
  by (simp add: zoom_in_def)

lemma zoom_out_level [simp]: "zoom_level (zoom_out s) = max (1 / 4) (zoom_level s - 1 / 4)"
  by (simp add: zoom_out_def)

subsection \<open>The zoom levels\<close>

lemma zoom_values_iff:
  "z \<in> set zoom_values \<longleftrightarrow> (\<exists>k. 1 \<le> k \<and> k \<le> 12 \<and> z = rat_of_nat k / 4)"
  by (auto simp: zoom_values_def)

lemma zoom_values_one: "1 \<in> set zoom_values"
  unfolding zoom_values_iff by (rule exI [of _ 4]) simp

lemma zoom_values_in:
  assumes "z \<in> set zoom_values"
  shows "min 3 (z + 1 / 4) \<in> set zoom_values"
proof -
  from assms obtain k where k: "1 \<le> k" "k \<le> 12" "z = rat_of_nat k / 4"
    unfolding zoom_values_iff by blast
  show ?thesis
  proof (cases "k = 12")
    case True
    with k have "min 3 (z + 1 / 4) = rat_of_nat 12 / 4" by simp
    then show ?thesis unfolding zoom_values_iff by (intro exI [of _ 12]) simp
  next
    case False
    with k have "k + 1 \<le> 12" by simp
    then have "rat_of_nat (k + 1) \<le> 12" by (metis of_nat_le_iff of_nat_numeral)
    then have "min 3 (z + 1 / 4) = rat_of_nat (k + 1) / 4"
      using k(3) by (simp add: min_def field_simps)
    then show ?thesis
      unfolding zoom_values_iff using \<open>k + 1 \<le> 12\<close> by (intro exI [of _ "k + 1"]) simp
  qed
qed

lemma zoom_values_out:
  assumes "z \<in> set zoom_values"
  shows "max (1 / 4) (z - 1 / 4) \<in> set zoom_values"
proof -
  from assms obtain k where k: "1 \<le> k" "k \<le> 12" "z = rat_of_nat k / 4"
    unfolding zoom_values_iff by blast
  show ?thesis
  proof (cases "k = 1")
    case True
    with k have "max (1 / 4) (z - 1 / 4) = rat_of_nat 1 / 4" by simp
    then show ?thesis unfolding zoom_values_iff by (intro exI [of _ 1]) simp
  next
    case False
    with k have k2: "2 \<le> k" by simp
    then have "rat_of_nat 2 \<le> rat_of_nat k" by (simp only: of_nat_le_iff)
    then have "max (1 / 4) (z - 1 / 4) = rat_of_nat (k - 1) / 4"
      using k(3) k2 by (simp add: max_def field_simps of_nat_diff)
    moreover have "1 \<le> k - 1" "k - 1 \<le> 12" using k k2 by arith+
    ultimately show ?thesis unfolding zoom_values_iff by blast
  qed
qed

lemma zoom_values_bounds:
  assumes "z \<in> set zoom_values"
  shows "1 / 4 \<le> z \<and> z \<le> 3"
proof -
  from assms obtain k where k: "1 \<le> k" "k \<le> 12" "z = rat_of_nat k / 4"
    unfolding zoom_values_iff by blast
  have "rat_of_nat 1 \<le> rat_of_nat k" "rat_of_nat k \<le> rat_of_nat 12"
    using k by (simp_all only: of_nat_le_iff)
  then show ?thesis using k(3) by simp
qed

lemma step_zoom_values:
  assumes "zoom_level s \<in> set zoom_values"
  shows "zoom_level (step env e s) \<in> set zoom_values"
proof (cases e)
  case (OpenPdf p)
  then show ?thesis using open_pdf_zoom [of env p s] assms zoom_values_one by auto
qed (use assms zoom_values_in zoom_values_out in simp_all)

lemma run_zoom_values:
  "zoom_level s \<in> set zoom_values \<Longrightarrow> zoom_level (run env es s) \<in> set zoom_values"
  by (induction es arbitrary: s) (simp_all add: step_zoom_values)

lemma zoom_in_iter:
  "zoom_level s \<le> 3 \<Longrightarrow>
   zoom_level ((zoom_in ^^ n) s) = min 3 (zoom_level s + rat_of_nat n / 4)"
  by (induction n) (auto simp: min_def field_simps)

lemma zoom_out_iter:
  "1 / 4 \<le> zoom_level s \<Longrightarrow>
   zoom_level ((zoom_out ^^ n) s) = max (1 / 4) (zoom_level s - rat_of_nat n / 4)"
  by (induction n) (auto simp: max_def field_simps)

lemma demo_open_fields:
  "current_page demo_open = 0" "total_pages demo_open = 3"
  "current_image demo_open = Some (Pixmap (lit ''a.pdf'') 0 (3 / 2))"
  "selection_rect demo_open = None" "zoom_level demo_open = 1"
  "selected_engine demo_open = TESSERACT"
  by (simp_all add: demo_open_eq)

subsection \<open>A usable document stays usable under navigation\<close>

lemma viewing_truthy: "viewing s \<Longrightarrow> truthy_doc (pdf_document s) = Inr True"
  by (auto simp: viewing_def truthy_doc_def doc_bool_def doc_len_def split: option.splits)

lemma then_display_viewing: "viewing s \<Longrightarrow> viewing (then_display s)"
  by (simp add: viewing_def split: option.splits)

lemma prev_page_viewing: "viewing s \<Longrightarrow> viewing (prev_page s)"
  by (auto simp: prev_page_def viewing_truthy intro: then_display_viewing)
    (auto simp: viewing_def split: option.splits)

lemma next_page_viewing: "viewing s \<Longrightarrow> viewing (next_page s)"
  by (auto simp: next_page_def viewing_truthy intro: then_display_viewing)
    (auto simp: viewing_def split: option.splits)

lemma demo_last_view:
  "viewing demo_last \<and> current_page demo_last = 2 \<and> total_pages demo_last = 3"
proof -
  let ?s1 = "next_page demo_open"
  have v1: "viewing ?s1" using demo_open_viewing by (rule next_page_viewing)
  have c1: "current_page ?s1 = 1" and t1: "total_pages ?s1 = 3"
    using demo_open_viewing by (simp_all add: next_page_def viewing_truthy demo_open_fields)
  have "viewing (next_page ?s1)" using v1 by (rule next_page_viewing)
  moreover have "current_page (next_page ?s1) = 2" "total_pages (next_page ?s1) = 3"
    using v1 c1 t1 by (simp_all add: next_page_def viewing_truthy)
  ultimately show ?thesis by (simp add: demo_last_def)
qed

subsection \<open>The backends never raise the adapter's own error\<close>

lemma backend_not_unknown: "backend r \<noteq> Inl (UnknownEngine n)"
  by (simp add: backend_def split: sum.splits)

lemma easyocr_not_unknown: "easyocr_ocr env img \<noteq> Inl (UnknownEngine n)"
  by (simp add: easyocr_ocr_def split: sum.splits)

subsection \<open>Detecting the engines\<close>

lemma try_import_cases:
  "try_import r =
     (if r = None then Inr True else if r = Some ImportError then Inr False else Inl (the r))"
  by (simp add: try_import_def split: option.splits pyexc.splits)

subsection \<open>The calls between two states; stripping; saving\<close>

lemma emitted_self [simp]: "emitted s s = []"
  by (simp add: emitted_def)

lemma emitted_emit [simp]: "emitted s (emit x s) = [x]"
  by (simp add: emitted_def)

lemma py_isspace_newline [simp]: "py_isspace 10"
  by (simp add: py_isspace_def)

lemma py_strip_newline: "py_strip (xs @ [10]) = py_strip xs"
proof (cases "\<forall>x\<in>set xs. py_isspace x")
  case True
  then have "\<forall>x\<in>set (xs @ [10]). py_isspace x" by simp
  then have a: "dropWhile py_isspace (xs @ [10]) = []"
    by (simp only: dropWhile_eq_Nil_conv)
  have b: "dropWhile py_isspace xs = []"
    using True by (simp only: dropWhile_eq_Nil_conv)
  show ?thesis unfolding py_strip_def a b by simp
next
  case False
  then obtain x where "x \<in> set xs" "\<not> py_isspace x" by blast
  then have "dropWhile py_isspace (xs @ [10]) = dropWhile py_isspace xs @ [10]"
    by (rule dropWhile_append1)
  then show ?thesis by (simp add: py_strip_def)
qed

lemma save_text_cases:
  "save_text env file_path s =
     (if py_strip (text_output s) = [] then emit (ShowWarning NoTextToSave) s
      else if file_path = [] then emit AskSaveAsFilename s
      else case file_write env file_path (py_strip (text_output s)) of
             None \<Rightarrow> (emit (FileWritten file_path (py_strip (text_output s)))
                        (emit AskSaveAsFilename s))\<lparr>status_var := SavedTo file_path\<rparr>
           | Some e \<Rightarrow> emit (ShowError (FailedToSave e)) (emit AskSaveAsFilename s))"
  by (simp add: save_text_def py_strip_newline Let_def)

lemma save_text_emitted:
  "emitted s (save_text env file_path s) =
     (if py_strip (text_output s) = [] then [ShowWarning NoTextToSave]
      else if file_path = [] then [AskSaveAsFilename]
      else case file_write env file_path (py_strip (text_output s)) of
             None \<Rightarrow> [AskSaveAsFilename, FileWritten file_path (py_strip (text_output s))]
           | Some e \<Rightarrow> [AskSaveAsFilename, ShowError (FailedToSave e)])"
  by (simp add: save_text_cases emitted_def split: option.splits)

lemma demo_padded_strip: "py_strip (text_output demo_padded) = lit ''two words''"
  by (simp add: demo_padded_def py_strip_def lit_def py_isspace_def)

lemma demo_blank_strip: "py_strip (text_output demo_blank) = []"
  by (simp add: demo_blank_def py_strip_def lit_def py_isspace_def)

subsection \<open>A failed load\<close>

lemma nav_document [simp]:
  "pdf_document (prev_page s) = pdf_document s"
  "pdf_document (next_page s) = pdf_document s"
  by (simp_all add: prev_page_def next_page_def uncaught_def split: sum.splits)

lemma demo_last_document:
  "pdf_document demo_last = Some \<lparr>doc_name = lit ''a.pdf'', page_count = 3, is_closed = False\<rparr>"
  by (simp add: demo_last_def demo_open_eq)

lemma demo_last_zoom: "zoom_level demo_last = 1"
  by (simp add: demo_last_def demo_open_fields)

lemma demo_failed_open_eq:
  "demo_failed_open =
     emit (ShowError (FailedToOpen (OtherError (lit ''cannot open file''))))
       (demo_last\<lparr>pdf_document :=
          Some \<lparr>doc_name = lit ''a.pdf'', page_count = 3, is_closed = True\<rparr>\<rparr>)"
proof -
  have f: "fitz_open demo_env (lit ''b.pdf'') = Inl (OtherError (lit ''cannot open file''))"
    by (simp add: demo_env_def lit_def)
  have c: "close_previous demo_last =
      Inr (demo_last\<lparr>pdf_document :=
             Some \<lparr>doc_name = lit ''a.pdf'', page_count = 3, is_closed = True\<rparr>\<rparr>)"
    by (simp add: close_previous_def demo_last_document doc_bool_def doc_len_def doc_close_def)
  show ?thesis
    by (simp add: demo_failed_open_def open_pdf_def open_pdf_try_def c f)
qed

subsection \<open>OCR of the selection\<close>

lemma finish_ocr_effects:
  "effects (finish_ocr r src s) =
     effects s @ (case r of Inl e \<Rightarrow> [ShowError (OcrErrorDialog e)] | Inr t \<Rightarrow> [])"
  by (simp add: finish_ocr_def display_ocr_result_def split: sum.splits)

lemma finish_ocr_output:
  "text_output (finish_ocr r src s) = (case r of Inl e \<Rightarrow> text_output s | Inr t \<Rightarrow> t)"
  by (simp add: finish_ocr_def display_ocr_result_def split: sum.splits)

lemma ocr_selection_emitted:
  "emitted s (ocr_selection env s) =
     (case current_image s of
        None \<Rightarrow> [ShowWarning OpenPdfFirst]
      | Some img \<Rightarrow>
          (case selection_rect s of
             None \<Rightarrow> [ShowWarning MakeSelectionFirst]
           | Some (x1, y1, x2, y2) \<Rightarrow>
               PerformOcr (Crop img (py_int x1) (py_int y1) (py_int x2) (py_int y2))
                 (selected_engine s)
               # (case perform_ocr env (Crop img (py_int x1) (py_int y1) (py_int x2) (py_int y2))
                         (selected_engine s) of
                    Inl e \<Rightarrow> [ShowError (OcrErrorDialog (exc_of e))]
                  | Inr t \<Rightarrow> [])))"
  by (simp add: ocr_selection_def emitted_def finish_ocr_effects raised_def Let_def
      split: option.splits prod.splits sum.splits)

lemma ocr_selection_warns:
  "current_image s = None \<or> selection_rect s = None \<Longrightarrow>
   \<exists>w. ocr_selection env s = emit (ShowWarning w) s"
  by (auto simp: ocr_selection_def split: option.splits)

lemma ocr_selection_output:
  "current_image s = Some img \<Longrightarrow> selection_rect s = Some (x1, y1, x2, y2) \<Longrightarrow>
   perform_ocr env (Crop img (py_int x1) (py_int y1) (py_int x2) (py_int y2)) (selected_engine s)
     = Inr t \<Longrightarrow>
   text_output (ocr_selection env s) = t"
  by (simp add: ocr_selection_def finish_ocr_output raised_def Let_def)

lemma py_int_truncates:
  "\<bar>rat_of_int (py_int x)\<bar> \<le> \<bar>x\<bar> \<and> \<bar>x - rat_of_int (py_int x)\<bar> < 1"
proof (cases "0 \<le> x")
  case True
  have a: "rat_of_int \<lfloor>x\<rfloor> \<le> x" by (rule of_int_floor_le)
  have b: "x < rat_of_int \<lfloor>x\<rfloor> + 1" using floor_correct [of x] by simp
  have c: "0 \<le> rat_of_int \<lfloor>x\<rfloor>" using True by simp
  have e: "py_int x = \<lfloor>x\<rfloor>" using True by (simp add: py_int_def)
  have 1: "\<bar>rat_of_int \<lfloor>x\<rfloor>\<bar> \<le> \<bar>x\<bar>" using True a c by linarith
  have 2: "\<bar>x - rat_of_int \<lfloor>x\<rfloor>\<bar> < 1" using a b by linarith
  show ?thesis unfolding e by (rule conjI [OF 1 2])
next
  case False
  have a: "x \<le> rat_of_int \<lceil>x\<rceil>" by (rule le_of_int_ceiling)
  have b: "rat_of_int \<lceil>x\<rceil> < x + 1" using ceiling_correct [of x] by simp
  have "\<lceil>x\<rceil> \<le> 0" using False by (simp add: ceiling_le_iff)
  then have c: "rat_of_int \<lceil>x\<rceil> \<le> 0" by simp
  have e: "py_int x = \<lceil>x\<rceil>" using False by (simp add: py_int_def)
  have 1: "\<bar>rat_of_int \<lceil>x\<rceil>\<bar> \<le> \<bar>x\<bar>" using False a c by linarith
  have 2: "\<bar>x - rat_of_int \<lceil>x\<rceil>\<bar> < 1" using a b by linarith
  show ?thesis unfolding e by (rule conjI [OF 1 2])
qed

lemma py_int_mono: "x \<le> y \<Longrightarrow> py_int x \<le> py_int y"
proof -
  assume xy: "x \<le> y"
  show ?thesis
  proof (cases "0 \<le> x")
    case True
    then have "0 \<le> y" using xy by simp
    then show ?thesis using True xy by (simp add: py_int_def floor_mono)
  next
    case False
    show ?thesis
    proof (cases "0 \<le> y")
      case True
      have "\<lceil>x\<rceil> \<le> 0" using False by (simp add: ceiling_le_iff)
      moreover have "0 \<le> \<lfloor>y\<rfloor>" using True by simp
      ultimately have "\<lceil>x\<rceil> \<le> \<lfloor>y\<rfloor>" by (rule order_trans)
      then show ?thesis using False True by (simp add: py_int_def)
    next
      case n: False
      then show ?thesis using False xy by (simp add: py_int_def ceiling_mono)
    qed
  qed
qed

lemma demo_selected_fields:
  "current_image demo_selected = Some (Pixmap (lit ''a.pdf'') 0 (3 / 2))"
  "selection_rect demo_selected = Some (43 / 4, 20, 52, 181 / 2)"
  "selected_engine demo_selected = TESSERACT"
  by (simp_all add: demo_selected_def on_mouse_release_def on_mouse_press_def demo_open_fields
      Let_def)

lemma demo_crop_ints:
  "py_int (43 / 4) = 10" "py_int 20 = 20" "py_int 52 = 52" "py_int (181 / 2) = 90"
  by (simp_all add: py_int_def floor_eq_iff)

lemma demo_region_text:
  "perform_ocr demo_env (Crop img l u r b) TESSERACT = Inr (lit ''text of a region'')"
  by (simp add: perform_ocr_def tesseract_ocr_def backend_def demo_env_def)

subsection \<open>OCR of the entire document\<close>

lemma upto_as_upt: "[0 .. int n - 1] = map int [0 ..< n]"
proof (induction n)
  case 0
  show ?case by simp
next
  case (Suc n)
  have "[0 .. int (Suc n) - 1] = [0 .. int n]" by simp
  also have "\<dots> = [0 .. int n - 1] @ [int n]" by (simp add: upto_rec2)
  finally show ?case using Suc by simp
qed

lemma page_entry_header:
  "page_entry (int p) t = spec_header (Suc p) @ [10] @ t @ [10]"
proof -
  have "nat (int p + 1) = Suc p" by simp
  then show ?thesis by (simp add: page_entry_def spec_header_def py_str_int_def)
qed

lemma py_join_Cons: "py_join sep (x # xs) = (if xs = [] then x else x @ sep @ py_join sep xs)"
  by (cases xs) simp_all

lemma spec_sections_Cons:
  "spec_sections N (t # ts) =
     spec_header N @ [10] @ t @ [10] @ (if ts = [] then [] else [10] @ spec_sections (Suc N) ts)"
  by (cases ts) simp_all

lemma join_entries_sections:
  "py_join [10] (map (\<lambda>p. page_entry (int p) (t p)) [k ..< k + m])
     = spec_sections (Suc k) (map t [k ..< k + m])"
proof (induction m arbitrary: k)
  case 0
  show ?case by simp
next
  case (Suc m)
  have u: "[k ..< k + Suc m] = k # [Suc k ..< Suc k + m]"
    by (simp add: upt_conv_Cons)
  show ?case
    unfolding u using Suc.IH [of "Suc k"]
    by (simp add: py_join_Cons spec_sections_Cons page_entry_header)
qed

lemma ocr_pages_success:
  assumes "\<not> is_closed d"
    and "\<forall>p\<in>set ps. p < page_count d
           \<and> perform_ocr env (Pixmap (doc_name d) p (3 / 2)) engine = Inr (t p)"
  shows "fst (ocr_pages env d engine tp (map int ps) acc s)
           = Inr (acc @ map (\<lambda>p. page_entry (int p) (t p)) ps)
         \<and> effects (snd (ocr_pages env d engine tp (map int ps) acc s))
           = effects s @ concat (map (\<lambda>p. [GetPixmap (doc_name d) p (3 / 2),
                                              PerformOcr (Pixmap (doc_name d) p (3 / 2)) engine]) ps)"
  using assms(2)
proof (induction ps arbitrary: acc s)
  case Nil
  show ?case by simp
next
  case (Cons p ps)
  have g: "doc_getitem d (int p) = Inr p"
    using assms(1) Cons.prems by (simp add: doc_getitem_def)
  have o: "perform_ocr env (Pixmap (doc_name d) p (3 / 2)) engine = Inr (t p)"
    using Cons.prems by simp
  have r: "\<forall>p\<in>set ps. p < page_count d
           \<and> perform_ocr env (Pixmap (doc_name d) p (3 / 2)) engine = Inr (t p)"
    using Cons.prems by simp
  show ?case
    using Cons.IH [OF r] by (simp add: g o Let_def)
qed

lemma ocr_entire_document_success:
  assumes v: "viewing s" and d: "pdf_document s = Some d"
    and ok: "\<forall>p<page_count d.
               perform_ocr env (Pixmap (doc_name d) p (3 / 2)) (selected_engine s) = Inr (t p)"
  shows "ocr_entire_document env s =
           display_ocr_result
             (py_join [10] (map (\<lambda>p. page_entry (int p) (t p)) [0 ..< page_count d]))
             (DocumentSource (selected_engine s))
             (snd (ocr_pages env d (selected_engine s) (total_pages s)
                     (map int [0 ..< page_count d]) []
                     (s\<lparr>status_var := PerformingDocument (selected_engine s)\<rparr>)))"
    and "effects (ocr_entire_document env s) =
           effects s @ concat (map (\<lambda>p. [GetPixmap (doc_name d) p (3 / 2),
                                           PerformOcr (Pixmap (doc_name d) p (3 / 2)) (selected_engine s)])
                                [0 ..< page_count d])"
proof -
  let ?e = "selected_engine s"
  let ?s1 = "s\<lparr>status_var := PerformingDocument ?e\<rparr>"
  let ?r = "ocr_pages env d ?e (total_pages s) (map int [0 ..< page_count d]) [] ?s1"
  have c: "\<not> is_closed d" and tp: "total_pages s = int (page_count d)"
    using v d by (simp_all add: viewing_def)
  have pre: "\<forall>p\<in>set [0 ..< page_count d]. p < page_count d
           \<and> perform_ocr env (Pixmap (doc_name d) p (3 / 2)) ?e = Inr (t p)"
    using ok by simp
  note succ = ocr_pages_success [OF c pre, of "total_pages s" "[]" ?s1]
  obtain s2 where r: "?r = (Inr (map (\<lambda>p. page_entry (int p) (t p)) [0 ..< page_count d]), s2)"
    using succ by (cases ?r) simp
  have range: "[0 .. total_pages s - 1] = map int [0 ..< page_count d]"
    unfolding tp by (rule upto_as_upt)
  have tr: "truthy_doc (Some d) = Inr True"
    using viewing_truthy [OF v] d by simp
  show 1: "ocr_entire_document env s =
           display_ocr_result
             (py_join [10] (map (\<lambda>p. page_entry (int p) (t p)) [0 ..< page_count d]))
             (DocumentSource ?e) (snd ?r)"
    unfolding ocr_entire_document_def d tr range
    by (simp add: finish_ocr_def r Let_def)
  show "effects (ocr_entire_document env s) =
           effects s @ concat (map (\<lambda>p. [GetPixmap (doc_name d) p (3 / 2),
                                           PerformOcr (Pixmap (doc_name d) p (3 / 2)) ?e])
                                [0 ..< page_count d])"
    unfolding 1 using succ by (simp add: display_ocr_result_def)
qed

lemma demo_page_text:
  "perform_ocr demo_env (Pixmap n p z) TESSERACT = Inr (lit ''text of page '' @ digits p)"
  by (simp add: perform_ocr_def tesseract_ocr_def backend_def demo_env_def)

lemma demo_open_document:
  "pdf_document demo_open = Some \<lparr>doc_name = lit ''a.pdf'', page_count = 3, is_closed = False\<rparr>"
  by (simp add: demo_open_eq)

lemma upt_0_3: "[0 ..< 3] = [0, 1, 2]"
  by (simp add: upt_rec)

lemma digits_small: "digits 0 = lit ''0''" "digits 1 = lit ''1''" "digits 2 = lit ''2''" "digits 3 = lit ''3''"
  "digits (Suc 0) = lit ''1''" "digits (Suc (Suc 0)) = lit ''2''"
  "digits (Suc (Suc (Suc 0))) = lit ''3''"
  by (simp_all add: digits.simps lit_def)

subsection \<open>The selection and the displayed bitmap\<close>

lemma then_display_kept_or_cleared:
  assumes "current_image s0 = current_image s" "selection_rect s0 = selection_rect s"
    "selection_start s0 = selection_start s" "effects s0 = effects s"
  shows "kept_or_cleared s (then_display s0)"
  using assms
  by (auto simp: kept_or_cleared_def then_display_def display_page_def uncaught_def emitted_def
      emit_def Let_def split: sum.splits bool.splits option.splits)

lemma nav_kept_or_cleared:
  "kept_or_cleared s (prev_page s)" "kept_or_cleared s (next_page s)"
  "kept_or_cleared s (zoom_in s)" "kept_or_cleared s (zoom_out s)"
proof -
  have k: "kept_or_cleared s s" by (simp add: kept_or_cleared_def)
  have u: "kept_or_cleared s (uncaught e s)" for e
    by (simp add: kept_or_cleared_def uncaught_def emitted_def emit_def)
  show "kept_or_cleared s (prev_page s)"
    by (auto simp: prev_page_def k u intro!: then_display_kept_or_cleared split: sum.splits)
  show "kept_or_cleared s (next_page s)"
    by (auto simp: next_page_def k u intro!: then_display_kept_or_cleared split: sum.splits)
  show "kept_or_cleared s (zoom_in s)"
    by (auto simp: zoom_in_def intro!: then_display_kept_or_cleared)
  show "kept_or_cleared s (zoom_out s)"
    by (auto simp: zoom_out_def intro!: then_display_kept_or_cleared)
qed

lemma close_previous_frame:
  "close_previous s = Inr s1 \<Longrightarrow>
     current_image s1 = current_image s \<and> selection_rect s1 = selection_rect s
     \<and> selection_start s1 = selection_start s \<and> effects s1 = effects s"
  "close_previous s = Inl (e, s1) \<Longrightarrow>
     current_image s1 = current_image s \<and> selection_rect s1 = selection_rect s
     \<and> selection_start s1 = selection_start s \<and> effects s1 = effects s"
  by (auto simp: close_previous_def split: option.splits sum.splits bool.splits)

lemma display_page_kept_or_cleared:
  assumes "current_image s0 = current_image s" "selection_rect s0 = selection_rect s"
    "selection_start s0 = selection_start s" "effects s0 = effects s"
  shows "display_page s0 = Inr s' \<Longrightarrow> kept_or_cleared s s'"
    and "display_page s0 = Inr s' \<Longrightarrow> kept_or_cleared s (s'\<lparr>status_var := st\<rparr>)"
  using assms
  by (auto simp: kept_or_cleared_def display_page_def emitted_def
      emit_def Let_def split: sum.splits bool.splits option.splits)

lemma kept_emit:
  assumes "current_image s0 = current_image s" "selection_rect s0 = selection_rect s"
    "selection_start s0 = selection_start s" "effects s0 = effects s"
    and "\<forall>img. x \<noteq> CanvasImage img"
  shows "kept_or_cleared s (emit x s0)"
  using assms by (auto simp: kept_or_cleared_def emitted_def)

lemma open_pdf_try_kept_or_cleared:
  "open_pdf_try env p s = Inr s' \<Longrightarrow> kept_or_cleared s s'"
  "open_pdf_try env p s = Inl (e, s') \<Longrightarrow>
     current_image s' = current_image s \<and> selection_rect s' = selection_rect s
     \<and> selection_start s' = selection_start s \<and> effects s' = effects s"
proof -
  show "kept_or_cleared s s'" if a: "open_pdf_try env p s = Inr s'"
  proof -
    from a obtain s1 n len s4 where
      c: "close_previous s = Inr s1" and
      d: "display_page (s1\<lparr>pdf_document :=
                Some \<lparr>doc_name = p, page_count = n, is_closed = False\<rparr>,
                total_pages := len, current_page := 0, zoom_level := 1\<rparr>) = Inr s4" and
      e: "s' = s4\<lparr>status_var := Loaded p\<rparr>"
      by (auto simp: open_pdf_try_def Let_def split: sum.splits)
    note f = close_previous_frame(1) [OF c]
    show ?thesis
      unfolding e by (rule display_page_kept_or_cleared(2) [OF _ _ _ _ d]) (simp_all add: f)
  qed
  show "current_image s' = current_image s \<and> selection_rect s' = selection_rect s
     \<and> selection_start s' = selection_start s \<and> effects s' = effects s"
    if "open_pdf_try env p s = Inl (e, s')"
    using that
    by (auto simp: open_pdf_try_def Let_def split: sum.splits
        dest!: close_previous_frame)
qed

lemma open_pdf_kept_or_cleared: "kept_or_cleared s (open_pdf env p s)"
proof -
  have k: "kept_or_cleared s s" by (simp add: kept_or_cleared_def)
  show ?thesis
    by (auto simp: open_pdf_def k split: sum.splits prod.splits
        dest!: open_pdf_try_kept_or_cleared intro!: kept_emit)
qed

lemma ocr_pages_effects:
  "\<exists>xs. effects (snd (ocr_pages env d e tp ps acc s)) = effects s @ xs
        \<and> (\<forall>img. CanvasImage img \<notin> set xs)"
proof (induction ps arbitrary: acc s)
  case Nil
  show ?case by simp
next
  case (Cons p ps)
  show ?case
  proof (cases "doc_getitem d p")
    case (Inl x)
    then show ?thesis by simp
  next
    case (Inr q)
    let ?img = "Pixmap (doc_name d) q (3 / 2)"
    let ?s3 = "emit (PerformOcr ?img e)
                 (emit (GetPixmap (doc_name d) q (3 / 2))
                    (s\<lparr>status_var := ProcessingPage (p + 1) tp e\<rparr>))"
    show ?thesis
    proof (cases "perform_ocr env ?img e")
      case (Inl x)
      then show ?thesis using Inr by (simp add: Let_def)
    next
      case r: (Inr t)
      from Cons.IH [of "acc @ [page_entry p t]" ?s3]
      obtain xs where "effects (snd (ocr_pages env d e tp ps (acc @ [page_entry p t]) ?s3))
          = effects ?s3 @ xs" "\<forall>img. CanvasImage img \<notin> set xs"
        by blast
      then show ?thesis using Inr r by (simp add: Let_def)
    qed
  qed
qed

lemma finish_ocr_kept:
  assumes "current_image s0 = current_image s" "selection_rect s0 = selection_rect s"
    "selection_start s0 = selection_start s"
    "\<exists>xs. effects s0 = effects s @ xs \<and> (\<forall>img. CanvasImage img \<notin> set xs)"
  shows "kept_or_cleared s (finish_ocr r src s0)"
  using assms
  by (auto simp: kept_or_cleared_def emitted_def finish_ocr_effects split: sum.splits)

lemma save_text_frame [simp]:
  "current_image (save_text env p s) = current_image s"
  "selection_rect (save_text env p s) = selection_rect s"
  "selection_start (save_text env p s) = selection_start s"
  by (simp_all add: save_text_cases split: option.splits)

lemma ocr_kept_or_cleared:
  "kept_or_cleared s (ocr_current_page env s)"
  "kept_or_cleared s (ocr_selection env s)"
  "kept_or_cleared s (ocr_entire_document env s)"
  "kept_or_cleared s (save_text env p s)"
  "kept_or_cleared s (select_engine e s)"
  "kept_or_cleared s (on_mouse_drag xy s)"
proof -
  show "kept_or_cleared s (ocr_current_page env s)"
    by (auto simp: ocr_current_page_def Let_def split: option.splits
        intro!: kept_emit finish_ocr_kept)
  show "kept_or_cleared s (ocr_selection env s)"
    by (auto simp: ocr_selection_def Let_def split: option.splits
        intro!: kept_emit finish_ocr_kept)
  show "kept_or_cleared s (save_text env p s)"
    by (simp add: kept_or_cleared_def save_text_emitted split: option.splits)
  show "kept_or_cleared s (select_engine e s)"
    by (simp add: kept_or_cleared_def select_engine_def emitted_def)
  show "kept_or_cleared s (on_mouse_drag xy s)"
    by (simp add: kept_or_cleared_def on_mouse_drag_def)
  show "kept_or_cleared s (ocr_entire_document env s)"
  proof -
    have k: "kept_or_cleared s (finish_ocr r src (snd (ocr_pages env d e tp ps [] (s\<lparr>status_var := st\<rparr>))))"
      for r src d e tp ps st
      using ocr_pages_frame [of env d e tp ps "[]" "s\<lparr>status_var := st\<rparr>"]
        ocr_pages_effects [of env d e tp ps "[]" "s\<lparr>status_var := st\<rparr>"]
      by (intro finish_ocr_kept) simp_all
    have sndeq: "\<And>d e tp ps acc s0 r s2. ocr_pages env d e tp ps acc s0 = (r, s2) \<Longrightarrow>
      s2 = snd (ocr_pages env d e tp ps acc s0)" by simp
    show ?thesis
      by (auto simp: ocr_entire_document_def uncaught_def Let_def k
          split: sum.splits bool.splits option.splits prod.splits dest!: sndeq
          intro!: kept_emit)
  qed
qed

lemma kept_or_cleared_current:
  "kept_or_cleared s s' \<Longrightarrow> selection_current s g \<Longrightarrow> selection_current s' g"
  by (auto simp: kept_or_cleared_def selection_current_def)

lemma step_selection_current:
  assumes "selection_current s g"
  shows "selection_current (step env e s) (selected_on e s g)"
proof (cases e)
  case (MousePress xy)
  then show ?thesis using assms
    by (auto simp: selection_current_def on_mouse_press_def split: option.splits)
next
  case (MouseRelease xy)
  then show ?thesis using assms
    by (auto simp: selection_current_def on_mouse_release_def Let_def split: option.splits prod.splits)
next
  case ClearSelection
  then show ?thesis using assms
    by (auto simp: selection_current_def clear_selection_def)
qed (use assms in \<open>simp_all add: kept_or_cleared_current [OF _ assms] nav_kept_or_cleared
       open_pdf_kept_or_cleared ocr_kept_or_cleared\<close>)

lemma run_tracked_selection_current:
  "selection_current s g \<Longrightarrow> selection_current (fst (run_tracked env es s g)) (snd (run_tracked env es s g))"
  by (induction es arbitrary: s g) (simp_all add: step_selection_current)

lemma run_tracked_run: "fst (run_tracked env es s g) = run env es s"
  by (induction es arbitrary: s g) simp_all

lemma step_kept_or_cleared:
  "(\<exists>xy. e = MousePress xy) \<or> (\<exists>xy. e = MouseRelease xy) \<or> e = ClearSelection
   \<or> kept_or_cleared s (step env e s)"
  by (cases e)
    (simp_all add: nav_kept_or_cleared open_pdf_kept_or_cleared ocr_kept_or_cleared)

lemma step_render_clears:
  "(\<forall>img. CanvasImage img \<in> set (emitted s (step env e s)) \<longrightarrow>
       selection_rect (step env e s) = None \<and> selection_start (step env e s) = None)
   \<and> (current_image (step env e s) \<noteq> current_image s \<longrightarrow>
       selection_rect (step env e s) = None \<and> selection_start (step env e s) = None)"
proof -
  consider (press) xy where "e = MousePress xy" | (release) xy where "e = MouseRelease xy"
    | (clear) "e = ClearSelection" | (other) "kept_or_cleared s (step env e s)"
    using step_kept_or_cleared [of e s env] by blast
  then show ?thesis
  proof cases
    case press
    then show ?thesis
      by (auto simp: on_mouse_press_def emitted_def split: option.splits)
  next
    case release
    then show ?thesis
      by (auto simp: on_mouse_release_def emitted_def Let_def split: option.splits prod.splits)
  next
    case clear
    then show ?thesis
      by (auto simp: clear_selection_def emitted_def)
  next
    case other
    then show ?thesis
      unfolding kept_or_cleared_def by blast
  qed
qed

lemma then_display_renders:
  assumes "viewing s"
  shows "selection_rect (then_display s) = None \<and> selection_start (then_display s) = None
         \<and> current_image (then_display s) \<noteq> None
         \<and> (\<exists>img. CanvasImage img \<in> set (emitted s (then_display s)))"
proof -
  from assms obtain d where d: "pdf_document s = Some d" "\<not> is_closed d"
    "total_pages s = int (page_count d)" "0 \<le> current_page s" "current_page s < total_pages s"
    by (auto simp: viewing_def split: option.splits)
  have g: "doc_getitem d (current_page s) = Inr (nat (current_page s))"
    using d by (simp add: doc_getitem_def)
  show ?thesis
    using viewing_truthy [OF assms] d(1) g
    by (simp add: then_display_def display_page_def Let_def emitted_def)
qed

lemma viewing_moved:
  assumes "viewing s"
  shows "viewing (s\<lparr>zoom_level := z\<rparr>)"
    and "current_page s < total_pages s - 1 \<Longrightarrow> viewing (s\<lparr>current_page := current_page s + 1\<rparr>)"
    and "0 < current_page s \<Longrightarrow> viewing (s\<lparr>current_page := current_page s - 1\<rparr>)"
  using assms by (auto simp: viewing_def split: option.splits)

lemma navigation_renders:
  assumes "viewing s"
  shows "selection_rect (zoom_in s) = None \<and> current_image (zoom_in s) \<noteq> None"
    and "selection_rect (zoom_out s) = None \<and> current_image (zoom_out s) \<noteq> None"
    and "current_page s < total_pages s - 1 \<Longrightarrow>
           selection_rect (next_page s) = None \<and> current_image (next_page s) \<noteq> None"
    and "0 < current_page s \<Longrightarrow>
           selection_rect (prev_page s) = None \<and> current_image (prev_page s) \<noteq> None"
proof -
  show "selection_rect (zoom_in s) = None \<and> current_image (zoom_in s) \<noteq> None"
    unfolding zoom_in_def using then_display_renders [OF viewing_moved(1) [OF assms]] by blast
  show "selection_rect (zoom_out s) = None \<and> current_image (zoom_out s) \<noteq> None"
    unfolding zoom_out_def using then_display_renders [OF viewing_moved(1) [OF assms]] by blast
  show "selection_rect (next_page s) = None \<and> current_image (next_page s) \<noteq> None"
    if "current_page s < total_pages s - 1"
    using then_display_renders [OF viewing_moved(2) [OF assms that]] that viewing_truthy [OF assms]
    by (simp add: next_page_def)
  show "selection_rect (prev_page s) = None \<and> current_image (prev_page s) \<noteq> None"
    if "0 < current_page s"
    using then_display_renders [OF viewing_moved(3) [OF assms that]] that viewing_truthy [OF assms]
    by (simp add: prev_page_def)
qed

lemma ocr_selection_without_rect:
  "selection_rect s = None \<and> current_image s \<noteq> None \<Longrightarrow>
   emitted s (ocr_selection env s) = [ShowWarning MakeSelectionFirst]"
  by (auto simp: ocr_selection_emitted)

lemma demo_selected_viewing:
  "viewing demo_selected" "current_page demo_selected = 0" "total_pages demo_selected = 3"
  using demo_open_viewing
  by (simp_all add: demo_selected_def viewing_def on_mouse_release_def on_mouse_press_def
      demo_open_fields Let_def split: option.splits)

lemma demo_selected_run:
  "run demo_env [OpenPdf (lit ''a.pdf''), MousePress (43 / 4, 20), MouseRelease (52, 181 / 2)]
     (initial [TESSERACT, EASYOCR] TESSERACT) = demo_selected"
  by (simp add: demo_selected_def demo_open_def demo_start_def)

subsection \<open>The page index stays valid\<close>

lemma doc_frames:
  "pdf_document (save_text env p s) = pdf_document s"
  "current_page (save_text env p s) = current_page s"
  "total_pages (save_text env p s) = total_pages s"
  "pdf_document (ocr_current_page env s) = pdf_document s"
  "current_page (ocr_current_page env s) = current_page s"
  "total_pages (ocr_current_page env s) = total_pages s"
  "pdf_document (ocr_selection env s) = pdf_document s"
  "current_page (ocr_selection env s) = current_page s"
  "total_pages (ocr_selection env s) = total_pages s"
  "pdf_document (on_mouse_press xy s) = pdf_document s"
  "current_page (on_mouse_press xy s) = current_page s"
  "total_pages (on_mouse_press xy s) = total_pages s"
  "pdf_document (on_mouse_release xy s) = pdf_document s"
  "current_page (on_mouse_release xy s) = current_page s"
  "total_pages (on_mouse_release xy s) = total_pages s"
  "pdf_document (clear_selection s) = pdf_document s"
  "current_page (clear_selection s) = current_page s"
  "total_pages (clear_selection s) = total_pages s"
  "pdf_document (select_engine e s) = pdf_document s"
  "current_page (select_engine e s) = current_page s"
  "total_pages (select_engine e s) = total_pages s"
  by (simp_all add: save_text_cases ocr_current_page_def ocr_selection_def on_mouse_press_def
      on_mouse_release_def clear_selection_def select_engine_def Let_def
      split: option.splits prod.splits)

lemma viewing_cong:
  "pdf_document s' = pdf_document s \<Longrightarrow> current_page s' = current_page s \<Longrightarrow>
   total_pages s' = total_pages s \<Longrightarrow> viewing s' = viewing s"
  by (simp add: viewing_def split: option.splits)

lemma page_valid_cong:
  "pdf_document s' = pdf_document s \<Longrightarrow> current_page s' = current_page s \<Longrightarrow>
   total_pages s' = total_pages s \<Longrightarrow> page_valid s' = page_valid s"
  by (simp add: page_valid_def viewing_def split: option.splits)

lemma open_pdf_page_valid: "page_valid s \<Longrightarrow> page_valid (open_pdf env p s)"
  by (auto simp: page_valid_def open_pdf_def open_pdf_try_def close_previous_def Let_def
      viewing_def truthy_doc_def doc_bool_def doc_len_def doc_close_def display_page_def
      doc_getitem_def
      split: sum.splits bool.splits option.splits prod.splits if_splits)

lemma page_valid_frames:
  "page_valid (save_text env p s) = page_valid s"
  "page_valid (ocr_current_page env s) = page_valid s"
  "page_valid (ocr_selection env s) = page_valid s"
  "page_valid (ocr_entire_document env s) = page_valid s"
  "page_valid (on_mouse_press xy s) = page_valid s"
  "page_valid (on_mouse_drag xy s) = page_valid s"
  "page_valid (on_mouse_release xy s) = page_valid s"
  "page_valid (clear_selection s) = page_valid s"
  "page_valid (select_engine e s) = page_valid s"
  "page_valid (then_display s) = page_valid s"
  by (rule page_valid_cong; simp add: doc_frames on_mouse_drag_def)+

lemma step_page_valid:
  assumes "page_valid s"
  shows "page_valid (step env e s)"
proof (cases e)
  case (OpenPdf p)
  then show ?thesis using assms by (simp add: open_pdf_page_valid)
next
  case PrevPage
  show ?thesis
  proof (cases "truthy_doc (pdf_document s) = Inr True")
    case True
    then have "viewing s" using assms by (simp add: page_valid_def)
    then show ?thesis using PrevPage by (simp add: page_valid_def prev_page_viewing)
  next
    case False
    then show ?thesis using PrevPage
      by (auto simp: page_valid_def prev_page_def uncaught_def split: sum.splits)
  qed
next
  case NextPage
  show ?thesis
  proof (cases "truthy_doc (pdf_document s) = Inr True")
    case True
    then have "viewing s" using assms by (simp add: page_valid_def)
    then show ?thesis using NextPage by (simp add: page_valid_def next_page_viewing)
  next
    case False
    then show ?thesis using NextPage
      by (auto simp: page_valid_def next_page_def uncaught_def split: sum.splits)
  qed
next
  case ZoomIn
  then show ?thesis using assms
    by (simp add: zoom_in_def page_valid_frames page_valid_cong [of "s\<lparr>zoom_level := min 3 (zoom_level s + 1 / 4)\<rparr>" s])
next
  case ZoomOut
  then show ?thesis using assms
    by (simp add: zoom_out_def page_valid_frames page_valid_cong [of "s\<lparr>zoom_level := max (1 / 4) (zoom_level s - 1 / 4)\<rparr>" s])
qed (use assms in \<open>simp_all add: page_valid_frames\<close>)

lemma run_page_valid: "page_valid s \<Longrightarrow> page_valid (run env es s)"
  by (induction es arbitrary: s) (simp_all add: step_page_valid)

lemma initial_page_valid: "page_valid (initial engines first)"
  by (simp add: page_valid_def initial_def truthy_doc_def)

subsection \<open>Every render clears the selection\<close>

text \<open>
  In every state and for every event: if the handler puts a bitmap on the canvas
  (a new render), or if the displayed bitmap is another one afterwards, then no selection
  rectangle and no selection start are left. With a usable document open, \<open>zoom_in\<close>
  and \<open>zoom_out\<close> always clear the selection, and so do \<open>next_page\<close> and
  \<open>prev_page\<close> whenever they change the page; \<open>ocr_selection\<close> after such a page change
  only shows the warning "make a selection first" (no engine call). In every state the
  application reaches from its start, a selection rectangle, if present, was drawn on the
  bitmap that is displayed now.
\<close>

lemma selection_cleared_when_usable:
  "(\<forall>img. CanvasImage img \<in> set (emitted s (step env e s)) \<longrightarrow>
       selection_rect (step env e s) = None \<and> selection_start (step env e s) = None)
   \<and> (current_image (step env e s) \<noteq> current_image s \<longrightarrow>
       selection_rect (step env e s) = None \<and> selection_start (step env e s) = None)
   \<and> (viewing s \<longrightarrow>
        selection_rect (zoom_in s) = None \<and> selection_rect (zoom_out s) = None
        \<and> (current_page s < total_pages s - 1 \<longrightarrow>
             selection_rect (next_page s) = None
             \<and> emitted (next_page s) (ocr_selection env (next_page s))
                 = [ShowWarning MakeSelectionFirst])
        \<and> (0 < current_page s \<longrightarrow>
             selection_rect (prev_page s) = None
             \<and> emitted (prev_page s) (ocr_selection env (prev_page s))
                 = [ShowWarning MakeSelectionFirst]))
   \<and> (selection_rect (run env es (initial engines first)) \<noteq> None \<longrightarrow>
        snd (run_tracked env es (initial engines first) None)
          = current_image (run env es (initial engines first))
        \<and> current_image (run env es (initial engines first)) \<noteq> None)
   \<and> fst (run_tracked env es (initial engines first) None) = run env es (initial engines first)"
proof -
  note a = step_render_clears [of s env e]
  have b: "viewing s \<longrightarrow>
        selection_rect (zoom_in s) = None \<and> selection_rect (zoom_out s) = None
        \<and> (current_page s < total_pages s - 1 \<longrightarrow>
             selection_rect (next_page s) = None
             \<and> emitted (next_page s) (ocr_selection env (next_page s))
                 = [ShowWarning MakeSelectionFirst])
        \<and> (0 < current_page s \<longrightarrow>
             selection_rect (prev_page s) = None
             \<and> emitted (prev_page s) (ocr_selection env (prev_page s))
                 = [ShowWarning MakeSelectionFirst])"
    using navigation_renders [of s] ocr_selection_without_rect by blast
  let ?i = "initial engines first"
  have i: "selection_current ?i None"
    by (simp add: selection_current_def initial_def)
  have c: "selection_current (run env es ?i) (snd (run_tracked env es ?i None))"
    using run_tracked_selection_current [OF i, of env es] by (simp add: run_tracked_run)
  then have c': "selection_rect (run env es ?i) \<noteq> None \<longrightarrow>
        snd (run_tracked env es ?i None) = current_image (run env es ?i)
        \<and> current_image (run env es ?i) \<noteq> None"
    by (auto simp: selection_current_def)
  show ?thesis
    using a b c' run_tracked_run [of env es ?i None] by blast
qed

lemma selection_cleared_when_usable_example:
  "viewing demo_selected
   \<and> selection_rect demo_selected = Some (43 / 4, 20, 52, 181 / 2)
   \<and> current_page demo_selected < total_pages demo_selected - 1
   \<and> selection_rect (next_page demo_selected) = None
   \<and> emitted (next_page demo_selected) (ocr_selection demo_env (next_page demo_selected))
       = [ShowWarning MakeSelectionFirst]
   \<and> selection_rect (zoom_in demo_selected) = None
   \<and> current_image (step demo_env NextPage demo_selected) \<noteq> current_image demo_selected
   \<and> selection_rect (step demo_env NextPage demo_selected) = None
   \<and> selection_rect
        (run demo_env [OpenPdf (lit ''a.pdf''), MousePress (43 / 4, 20), MouseRelease (52, 181 / 2)]
           (initial [TESSERACT, EASYOCR] TESSERACT)) \<noteq> None
   \<and> snd (run_tracked demo_env
             [OpenPdf (lit ''a.pdf''), MousePress (43 / 4, 20), MouseRelease (52, 181 / 2)]
             (initial [TESSERACT, EASYOCR] TESSERACT) None)
       = Some (Pixmap (lit ''a.pdf'') 0 (3 / 2))"
proof -
  let ?es = "[OpenPdf (lit ''a.pdf''), MousePress (43 / 4, 20), MouseRelease (52, 181 / 2)]"
  note t = selection_cleared_when_usable [of demo_selected demo_env NextPage ?es
      "[TESSERACT, EASYOCR]" TESSERACT]
  have lt: "current_page demo_selected < total_pages demo_selected - 1"
    by (simp add: demo_selected_viewing)
  have n: "selection_rect (next_page demo_selected) = None"
    "emitted (next_page demo_selected) (ocr_selection demo_env (next_page demo_selected))
       = [ShowWarning MakeSelectionFirst]"
    "selection_rect (zoom_in demo_selected) = None"
    using t demo_selected_viewing(1) lt by blast+
  have img: "current_image (next_page demo_selected) = Some (Pixmap (lit ''a.pdf'') 1 (3 / 2))"
  proof -
    have p: "pdf_document demo_selected
        = Some \<lparr>doc_name = lit ''a.pdf'', page_count = 3, is_closed = False\<rparr>"
      by (simp add: demo_selected_def on_mouse_release_def on_mouse_press_def demo_open_fields
          demo_open_document Let_def)
    have z: "zoom_level demo_selected = 1"
      by (simp add: demo_selected_def demo_open_fields)
    show ?thesis
      using viewing_truthy [OF demo_selected_viewing(1)]
      by (simp add: next_page_def demo_selected_viewing then_display_def display_page_def p z
          doc_getitem_def Let_def truthy_doc_def doc_bool_def doc_len_def)
  qed
  have ne: "current_image (step demo_env NextPage demo_selected) \<noteq> current_image demo_selected"
    by (simp add: img demo_selected_fields)
  have r: "selection_rect (run demo_env ?es (initial [TESSERACT, EASYOCR] TESSERACT)) \<noteq> None"
    by (simp only: demo_selected_run demo_selected_fields) simp
  have tr: "snd (run_tracked demo_env ?es (initial [TESSERACT, EASYOCR] TESSERACT) None)
       = Some (Pixmap (lit ''a.pdf'') 0 (3 / 2))"
    using t r by (simp only: demo_selected_run demo_selected_fields) simp
  have sn: "selection_rect (step demo_env NextPage demo_selected) = None"
    using t ne by blast
  show ?thesis
    using demo_selected_viewing(1) demo_selected_fields(2) lt n ne sn r tr by blast
qed

subsection \<open>Zooming after a failed load\<close>

lemma demo_selected_document:
  "pdf_document demo_selected
     = Some \<lparr>doc_name = lit ''a.pdf'', page_count = 3, is_closed = False\<rparr>"
  by (simp add: demo_selected_def doc_frames demo_open_document)

lemma demo_stale_eq:
  "demo_stale =
     emit (ShowError (FailedToOpen (OtherError (lit ''cannot open file''))))
       (demo_selected\<lparr>pdf_document :=
          Some \<lparr>doc_name = lit ''a.pdf'', page_count = 3, is_closed = True\<rparr>\<rparr>)"
proof -
  have f: "fitz_open demo_env (lit ''b.pdf'') = Inl (OtherError (lit ''cannot open file''))"
    by (simp add: demo_env_def lit_def)
  have c: "close_previous demo_selected =
      Inr (demo_selected\<lparr>pdf_document :=
             Some \<lparr>doc_name = lit ''a.pdf'', page_count = 3, is_closed = True\<rparr>\<rparr>)"
    by (simp add: close_previous_def demo_selected_document doc_bool_def doc_len_def doc_close_def)
  show ?thesis
    by (simp add: demo_stale_def open_pdf_def open_pdf_try_def c f)
qed

lemma demo_stale_fields:
  "pdf_document demo_stale = Some \<lparr>doc_name = lit ''a.pdf'', page_count = 3, is_closed = True\<rparr>"
  "current_image demo_stale = Some (Pixmap (lit ''a.pdf'') 0 (3 / 2))"
  "selection_rect demo_stale = Some (43 / 4, 20, 52, 181 / 2)"
  "selected_engine demo_stale = TESSERACT"
  "zoom_level demo_stale = 1"
  by (simp_all add: demo_stale_eq demo_selected_fields)
    (simp add: demo_selected_def demo_open_fields)

lemma demo_stale_run:
  "run demo_env [OpenPdf (lit ''a.pdf''), MousePress (43 / 4, 20), MouseRelease (52, 181 / 2),
                 OpenPdf (lit ''b.pdf'')]
     (initial [TESSERACT, EASYOCR] TESSERACT) = demo_stale"
  by (simp add: demo_stale_def demo_selected_def demo_open_def demo_start_def)

lemma demo_stale_zoom_in:
  "zoom_in demo_stale = uncaught doc_closed_error (demo_stale\<lparr>zoom_level := 5 / 4\<rparr>)"
proof -
  have t: "truthy_doc (Some \<lparr>doc_name = lit ''a.pdf'', page_count = 3, is_closed = True\<rparr>)
      = Inl doc_closed_error"
    by (simp add: truthy_doc_def doc_bool_def doc_len_def)
  show ?thesis
    by (simp add: zoom_in_def then_display_def display_page_def demo_stale_fields t)
qed

section \<open>The claims\<close>

text \<open>
  C9. For every bitmap, \<open>perform_ocr\<close> raises its unsupported-engine error (the
  \<open>ValueError\<close> of its last branch, carrying the name it was given) if and only if the
  engine name is none of \<open>"Tesseract"\<close>, \<open>"EasyOCR"\<close>, \<open>"Windows OCR"\<close>; for each of
  the three names it is exactly the call of that backend.
\<close>

theorem perform_ocr_unknown_engine:
  "(\<exists>n. perform_ocr env img e = Inl (UnknownEngine n)) = (e \<notin> {TESSERACT, EASYOCR, WINDOWS_OCR})
   \<and> (perform_ocr env img e = Inl (UnknownEngine e)) = (e \<notin> {TESSERACT, EASYOCR, WINDOWS_OCR})
   \<and> perform_ocr env img TESSERACT = tesseract_ocr env img
   \<and> perform_ocr env img EASYOCR = easyocr_ocr env img
   \<and> perform_ocr env img WINDOWS_OCR = windows_ocr env img"
  using engine_names_distinct
  by (simp add: perform_ocr_def tesseract_ocr_def windows_ocr_def backend_not_unknown
      easyocr_not_unknown)

text \<open>
  C5. With a page on the canvas, a press at \<open>p1\<close> followed by a release at \<open>p2\<close>
  leaves the rectangle \<open>(min x, min y, max x, max y)\<close> of the two points, so
  \<open>x1 \<le> x2\<close> and \<open>y1 \<le> y2\<close>, and pressing at \<open>p2\<close> and releasing at \<open>p1\<close> leaves the
  same rectangle.
\<close>

theorem selection_normalized:
  assumes "current_image s \<noteq> None"
  shows "selection_rect (on_mouse_release p2 (on_mouse_press p1 s))
           = Some (min (fst p1) (fst p2), min (snd p1) (snd p2),
                   max (fst p1) (fst p2), max (snd p1) (snd p2))
         \<and> min (fst p1) (fst p2) \<le> max (fst p1) (fst p2)
         \<and> min (snd p1) (snd p2) \<le> max (snd p1) (snd p2)
         \<and> selection_rect (on_mouse_release p1 (on_mouse_press p2 s))
           = selection_rect (on_mouse_release p2 (on_mouse_press p1 s))"
  using assms
  by (cases p1; cases p2)
     (auto simp: on_mouse_release_def on_mouse_press_def Let_def min_def max_def
       split: option.splits)

theorem selection_normalized_witness:
  "current_image demo_open \<noteq> None
   \<and> selection_rect (on_mouse_release (2, 9) (on_mouse_press (5, 7) demo_open)) = Some (2, 7, 5, 9)
   \<and> selection_rect (on_mouse_release (5, 7) (on_mouse_press (2, 9) demo_open)) = Some (2, 7, 5, 9)"
  using selection_normalized [of demo_open "(5, 7)" "(2, 9)"]
  by (simp add: demo_open_fields)

text \<open>
  C8. With a usable document open: \<open>prev_page\<close> at page index 0 and \<open>next_page\<close> at
  the last page change nothing at all (so repeating them changes nothing either); in
  every other case the index moves by exactly one; and the index stays among the pages
  of the document. Whatever the user does from the start of the application, whenever
  the document field is true (a document with pages that is not closed) the page index
  is one of its pages.
\<close>

theorem page_navigation:
  assumes "viewing s"
  shows "(current_page s = 0 \<longrightarrow> prev_page s = s)
       \<and> (current_page s = total_pages s - 1 \<longrightarrow> next_page s = s)
       \<and> (current_page s \<noteq> 0 \<longrightarrow> current_page (prev_page s) = current_page s - 1)
       \<and> (current_page s \<noteq> total_pages s - 1 \<longrightarrow> current_page (next_page s) = current_page s + 1)
       \<and> viewing (prev_page s) \<and> viewing (next_page s)
       \<and> 0 \<le> current_page s \<and> current_page s \<le> total_pages s - 1
       \<and> (truthy_doc (pdf_document (run env es (initial engines first))) = Inr True \<longrightarrow>
            viewing (run env es (initial engines first)))"
proof -
  have t: "truthy_doc (pdf_document s) = Inr True" using assms by (rule viewing_truthy)
  have r: "0 \<le> current_page s" "current_page s < total_pages s"
    using assms by (auto simp: viewing_def split: option.splits)
  have v: "truthy_doc (pdf_document (run env es (initial engines first))) = Inr True \<longrightarrow>
            viewing (run env es (initial engines first))"
    using run_page_valid [OF initial_page_valid, of env es engines first]
    by (simp add: page_valid_def)
  show ?thesis
    using t r v prev_page_viewing [OF assms] next_page_viewing [OF assms]
    by (simp add: prev_page_def next_page_def)
qed

theorem page_navigation_witness:
  "viewing demo_open \<and> current_page demo_open = 0 \<and> prev_page demo_open = demo_open
   \<and> current_page (next_page demo_open) = 1
   \<and> viewing demo_last \<and> current_page demo_last = total_pages demo_last - 1
   \<and> next_page demo_last = demo_last \<and> current_page (prev_page demo_last) = 1
   \<and> truthy_doc (pdf_document (run demo_env [OpenPdf (lit ''a.pdf'')]
                      (initial [TESSERACT, EASYOCR] TESSERACT))) = Inr True
   \<and> viewing (run demo_env [OpenPdf (lit ''a.pdf'')] (initial [TESSERACT, EASYOCR] TESSERACT))"
proof -
  have o: "open_pdf demo_env (lit ''a.pdf'') (initial [TESSERACT, EASYOCR] TESSERACT)
      = demo_open"
    by (simp add: demo_open_def demo_start_def)
  show ?thesis
    using page_navigation [OF demo_open_viewing, of demo_env "[OpenPdf (lit ''a.pdf'')]"
        "[TESSERACT, EASYOCR]" TESSERACT]
      page_navigation [of demo_last] demo_last_view viewing_truthy [OF demo_open_viewing]
    by (simp add: demo_open_fields demo_open_viewing o)
qed

text \<open>
  C7. The zoom level starts at 1.0 and, whatever the user does, is one of the multiples
  of 0.25 between 0.25 and 3.0. \<open>zoom_in\<close> adds 0.25 and \<open>zoom_out\<close> subtracts 0.25,
  capped at 3.0 and 0.25; from the start, \<open>n\<close> zoom-ins give \<open>min 3 (1 + n / 4)\<close>, which
  is 3.0 from the eighth on, and \<open>n\<close> zoom-outs give \<open>max 0.25 (1 - n / 4)\<close>, which is
  0.25 from the third on; from any state the application can reach, eleven steps are
  enough.
\<close>

theorem zoom_clamped:
  "zoom_level (initial engines first) = 1
   \<and> zoom_level (run env es (initial engines first)) \<in> set zoom_values
   \<and> 1 / 4 \<le> zoom_level (run env es (initial engines first))
   \<and> zoom_level (run env es (initial engines first)) \<le> 3
   \<and> zoom_level (zoom_in s) = min 3 (zoom_level s + 1 / 4)
   \<and> zoom_level (zoom_out s) = max (1 / 4) (zoom_level s - 1 / 4)
   \<and> zoom_level ((zoom_in ^^ n) (initial engines first)) = min 3 (1 + rat_of_nat n / 4)
   \<and> zoom_level ((zoom_out ^^ n) (initial engines first)) = max (1 / 4) (1 - rat_of_nat n / 4)
   \<and> zoom_level ((zoom_in ^^ (8 + n)) (initial engines first)) = 3
   \<and> zoom_level ((zoom_out ^^ (3 + n)) (initial engines first)) = 1 / 4
   \<and> zoom_level ((zoom_in ^^ (11 + n)) (run env es (initial engines first))) = 3
   \<and> zoom_level ((zoom_out ^^ (11 + n)) (run env es (initial engines first))) = 1 / 4"
proof -
  let ?i = "initial engines first"
  have z1: "zoom_level ?i = 1" by (simp add: initial_def)
  have mem: "zoom_level (run env es ?i) \<in> set zoom_values"
    by (rule run_zoom_values) (simp add: z1 zoom_values_one)
  note b = zoom_values_bounds [OF mem]
  have i1: "zoom_level ((zoom_in ^^ n) ?i) = min 3 (1 + rat_of_nat n / 4)" for n
    using zoom_in_iter [of ?i n] by (simp add: z1)
  have o1: "zoom_level ((zoom_out ^^ n) ?i) = max (1 / 4) (1 - rat_of_nat n / 4)" for n
    using zoom_out_iter [of ?i n] by (simp add: z1)
  have i2: "zoom_level ((zoom_in ^^ (8 + n)) ?i) = 3"
    unfolding i1 by (simp add: min_def field_simps)
  have o2: "zoom_level ((zoom_out ^^ (3 + n)) ?i) = 1 / 4"
    unfolding o1 by (simp add: max_def field_simps)
  have i3: "zoom_level ((zoom_in ^^ (11 + n)) (run env es ?i)) = 3"
    using zoom_in_iter [of "run env es ?i" "11 + n"] b by (simp add: min_def field_simps)
  have o3: "zoom_level ((zoom_out ^^ (11 + n)) (run env es ?i)) = 1 / 4"
    using zoom_out_iter [of "run env es ?i" "11 + n"] b by (simp add: max_def field_simps)
  show ?thesis using z1 mem b i1 o1 i2 o2 i3 o3 by simp
qed

text \<open>
  C3, as stated, fails: when an optional import raises something other than
  \<open>ImportError\<close>, \<open>get_available_engines\<close> raises it (and \<open>__init__\<close> with it) instead
  of leaving the engine out.
\<close>

theorem available_engines_counterexample:
  "import_easyocr broken_easyocr_env = Some (OtherError (lit ''DLL load failed''))
   \<and> get_available_engines broken_easyocr_env = Inl (OtherError (lit ''DLL load failed''))
   \<and> app_init broken_easyocr_env = Inl (OtherError (lit ''DLL load failed''))"
  by (simp add: broken_easyocr_env_def get_available_engines_def try_import_def app_init_def)

text \<open>
  C3, amended. When each optional import either succeeds or raises \<open>ImportError\<close>,
  \<open>get_available_engines\<close> returns Tesseract first, then EasyOCR and Windows OCR in this
  order, each exactly when its import succeeded. Whenever it returns a list, the list
  is of this kind; and it raises only an exception that is not an \<open>ImportError\<close> and
  that one of the two imports raised.
\<close>

theorem available_engines_amended:
  "(import_easyocr env \<in> {None, Some ImportError} \<and> import_winocr env \<in> {None, Some ImportError}
      \<longrightarrow> get_available_engines env =
            Inr (TESSERACT # (if import_easyocr env = None then [EASYOCR] else [])
                           @ (if import_winocr env = None then [WINDOWS_OCR] else [])))
   \<and> (\<forall>engines. get_available_engines env = Inr engines \<longrightarrow>
         hd engines = TESSERACT
         \<and> (EASYOCR \<in> set engines) = (import_easyocr env = None)
         \<and> (WINDOWS_OCR \<in> set engines) = (import_winocr env = None)
         \<and> import_easyocr env \<in> {None, Some ImportError}
         \<and> import_winocr env \<in> {None, Some ImportError})
   \<and> (\<forall>e. get_available_engines env = Inl e \<longrightarrow>
         e \<noteq> ImportError \<and> (import_easyocr env = Some e \<or> import_winocr env = Some e))"
  using engine_names_distinct
  by (auto simp: get_available_engines_def try_import_cases Let_def split: if_splits)

theorem available_engines_amended_witness:
  "import_easyocr demo_env \<in> {None, Some ImportError}
   \<and> import_winocr demo_env \<in> {None, Some ImportError}
   \<and> get_available_engines demo_env = Inr [TESSERACT, EASYOCR]
   \<and> hd [TESSERACT, EASYOCR] = TESSERACT
   \<and> EASYOCR \<in> set [TESSERACT, EASYOCR] \<and> import_easyocr demo_env = None
   \<and> WINDOWS_OCR \<notin> set [TESSERACT, EASYOCR] \<and> import_winocr demo_env = Some ImportError
   \<and> get_available_engines broken_easyocr_env = Inl (OtherError (lit ''DLL load failed''))
   \<and> import_easyocr broken_easyocr_env = Some (OtherError (lit ''DLL load failed''))"
proof -
  have a: "import_easyocr demo_env = None" "import_winocr demo_env = Some ImportError"
    by (simp_all add: demo_env_def)
  have b: "get_available_engines broken_easyocr_env = Inl (OtherError (lit ''DLL load failed''))"
    by (simp add: broken_easyocr_env_def get_available_engines_def try_import_def)
  show ?thesis
    using available_engines_amended [of demo_env] available_engines_amended [of broken_easyocr_env]
      a b engine_names_distinct
    by (simp add: broken_easyocr_env_def)
qed

text \<open>
  C10. \<open>save_text\<close> strips the text of the output pane. When nothing is left it shows
  the warning and does nothing else: no file-save dialog, no write. Otherwise the dialog is
  shown, and any write it makes is a write of exactly the stripped text to the chosen
  file; with a file chosen and a write that succeeds, this write happens. (What
  \<open>f.write\<close> receives is the stripped text; the newline translation of the text-mode
  file is the operating system's.)
\<close>

theorem save_text_stripped:
  "(py_strip (text_output s) = [] \<longrightarrow>
      save_text env file_path s = emit (ShowWarning NoTextToSave) s
      \<and> emitted s (save_text env file_path s) = [ShowWarning NoTextToSave])
   \<and> (py_strip (text_output s) \<noteq> [] \<and> file_path \<noteq> []
        \<and> file_write env file_path (py_strip (text_output s)) = None \<longrightarrow>
      emitted s (save_text env file_path s)
        = [AskSaveAsFilename, FileWritten file_path (py_strip (text_output s))])
   \<and> (\<forall>p t. FileWritten p t \<in> set (emitted s (save_text env file_path s)) \<longrightarrow>
         p = file_path \<and> t = py_strip (text_output s) \<and> t \<noteq> [])
   \<and> (AskSaveAsFilename \<in> set (emitted s (save_text env file_path s)))
       = (py_strip (text_output s) \<noteq> [])"
proof -
  have a: "py_strip (text_output s) = [] \<longrightarrow>
      save_text env file_path s = emit (ShowWarning NoTextToSave) s"
    by (simp add: save_text_cases)
  have b: "py_strip (text_output s) = [] \<longrightarrow>
      emitted s (save_text env file_path s) = [ShowWarning NoTextToSave]"
    by (simp add: save_text_emitted)
  have c: "py_strip (text_output s) \<noteq> [] \<and> file_path \<noteq> []
        \<and> file_write env file_path (py_strip (text_output s)) = None \<longrightarrow>
      emitted s (save_text env file_path s)
        = [AskSaveAsFilename, FileWritten file_path (py_strip (text_output s))]"
    by (simp add: save_text_emitted)
  have d: "\<forall>p t. FileWritten p t \<in> set (emitted s (save_text env file_path s)) \<longrightarrow>
         p = file_path \<and> t = py_strip (text_output s) \<and> t \<noteq> []"
    by (simp add: save_text_emitted split: option.splits)
  have e: "(AskSaveAsFilename \<in> set (emitted s (save_text env file_path s)))
       = (py_strip (text_output s) \<noteq> [])"
    by (simp add: save_text_emitted split: option.splits)
  from a b c d e show ?thesis by blast
qed

theorem save_text_stripped_witness:
  "py_strip (text_output demo_blank) = []
   \<and> save_text demo_env (lit ''out.txt'') demo_blank = emit (ShowWarning NoTextToSave) demo_blank
   \<and> emitted demo_blank (save_text demo_env (lit ''out.txt'') demo_blank) = [ShowWarning NoTextToSave]
   \<and> py_strip (text_output demo_padded) \<noteq> [] \<and> lit ''out.txt'' \<noteq> []
   \<and> file_write demo_env (lit ''out.txt'') (py_strip (text_output demo_padded)) = None
   \<and> emitted demo_padded (save_text demo_env (lit ''out.txt'') demo_padded)
       = [AskSaveAsFilename, FileWritten (lit ''out.txt'') (lit ''two words'')]
   \<and> text_output demo_padded \<noteq> lit ''two words''"
proof -
  have w: "file_write demo_env (lit ''out.txt'') (lit ''two words'') = None"
    by (simp add: demo_env_def)
  have n: "text_output demo_padded \<noteq> lit ''two words''"
    by (simp add: demo_padded_def lit_def)
  have ne: "lit ''two words'' \<noteq> []" "lit ''out.txt'' \<noteq> []"
    by simp_all
  from save_text_stripped [of demo_blank demo_env "lit ''out.txt''"]
  have 1: "save_text demo_env (lit ''out.txt'') demo_blank = emit (ShowWarning NoTextToSave) demo_blank"
    "emitted demo_blank (save_text demo_env (lit ''out.txt'') demo_blank) = [ShowWarning NoTextToSave]"
    using demo_blank_strip by blast+
  from save_text_stripped [of demo_padded demo_env "lit ''out.txt''"]
  have 2: "emitted demo_padded (save_text demo_env (lit ''out.txt'') demo_padded)
       = [AskSaveAsFilename, FileWritten (lit ''out.txt'') (lit ''two words'')]"
    using w ne unfolding demo_padded_strip by blast
  show ?thesis
    using 1 2 w n ne by (simp only: demo_padded_strip demo_blank_strip simp_thms)
qed

text \<open>
  C1 does not hold of the code. \<open>open_pdf\<close> closes the document that is open before
  it calls \<open>fitz.open\<close>; when \<open>fitz.open\<close> then raises, the error dialog is shown,
  the page index, the page count and the zoom level keep their values, but the field
  \<open>pdf_document\<close> still holds the document that was just closed: it is installed and
  no longer usable (the next \<open>prev_page\<close> raises "document closed" and the page does
  not change).
\<close>

theorem open_pdf_failure_closes_previous:
  "pdf_document demo_last = Some \<lparr>doc_name = lit ''a.pdf'', page_count = 3, is_closed = False\<rparr>
   \<and> current_page demo_last = 2 \<and> total_pages demo_last = 3 \<and> zoom_level demo_last = 1
   \<and> viewing demo_last
   \<and> fitz_open demo_env (lit ''b.pdf'') = Inl (OtherError (lit ''cannot open file''))
   \<and> emitted demo_last (open_pdf demo_env (lit ''b.pdf'') demo_last)
        = [ShowError (FailedToOpen (OtherError (lit ''cannot open file'')))]
   \<and> pdf_document (open_pdf demo_env (lit ''b.pdf'') demo_last)
        = Some \<lparr>doc_name = lit ''a.pdf'', page_count = 3, is_closed = True\<rparr>
   \<and> current_page (open_pdf demo_env (lit ''b.pdf'') demo_last) = 2
   \<and> total_pages (open_pdf demo_env (lit ''b.pdf'') demo_last) = 3
   \<and> zoom_level (open_pdf demo_env (lit ''b.pdf'') demo_last) = 1
   \<and> \<not> viewing (open_pdf demo_env (lit ''b.pdf'') demo_last)
   \<and> emitted (open_pdf demo_env (lit ''b.pdf'') demo_last)
        (prev_page (open_pdf demo_env (lit ''b.pdf'') demo_last))
        = [CallbackException doc_closed_error]
   \<and> current_page (prev_page (open_pdf demo_env (lit ''b.pdf'') demo_last)) = 2"
proof -
  have f: "fitz_open demo_env (lit ''b.pdf'') = Inl (OtherError (lit ''cannot open file''))"
    by (simp add: demo_env_def lit_def)
  have t: "truthy_doc (Some \<lparr>doc_name = lit ''a.pdf'', page_count = 3, is_closed = True\<rparr>)
      = Inl doc_closed_error"
    by (simp add: truthy_doc_def doc_bool_def doc_len_def)
  show ?thesis
    unfolding demo_failed_open_def [symmetric] demo_failed_open_eq
    using demo_last_view demo_last_document demo_last_zoom f
    by (simp add: emitted_def viewing_def prev_page_def t uncaught_def)
qed

text \<open>
  C4. \<open>ocr_selection\<close> shows a warning exactly when there is no bitmap or no
  selection rectangle, and calls \<open>perform_ocr\<close> exactly in the other case: the two
  exclude each other. When it warns, the warning is all that happens. With a bitmap
  and a rectangle \<open>(x1, y1, x2, y2)\<close>, the one engine call is on the bitmap cropped to
  \<open>(int(x1), int(y1), int(x2), int(y2))\<close> with the selected engine, and its text, when
  the engine returns one, fills the output pane. \<open>int\<close> truncates towards zero (the
  integer between 0 and \<open>x\<close> less than 1 away from \<open>x\<close>) and keeps the order of the
  bounds.
\<close>

theorem ocr_selection_guard:
  "((\<exists>w. ShowWarning w \<in> set (emitted s (ocr_selection env s)))
      = (current_image s = None \<or> selection_rect s = None))
   \<and> ((\<exists>img e. PerformOcr img e \<in> set (emitted s (ocr_selection env s)))
      = (current_image s \<noteq> None \<and> selection_rect s \<noteq> None))
   \<and> (current_image s = None \<or> selection_rect s = None \<longrightarrow>
        (\<exists>w. ocr_selection env s = emit (ShowWarning w) s))
   \<and> (\<forall>img x1 y1 x2 y2.
        current_image s = Some img \<and> selection_rect s = Some (x1, y1, x2, y2) \<longrightarrow>
        (\<exists>rest. emitted s (ocr_selection env s)
                  = PerformOcr (Crop img (py_int x1) (py_int y1) (py_int x2) (py_int y2))
                      (selected_engine s) # rest
                \<and> (\<forall>i e. PerformOcr i e \<notin> set rest))
        \<and> (\<forall>t. perform_ocr env (Crop img (py_int x1) (py_int y1) (py_int x2) (py_int y2))
                   (selected_engine s) = Inr t \<longrightarrow> text_output (ocr_selection env s) = t))
   \<and> (\<forall>x. \<bar>rat_of_int (py_int x)\<bar> \<le> \<bar>x\<bar> \<and> \<bar>x - rat_of_int (py_int x)\<bar> < 1)
   \<and> (\<forall>x y. x \<le> y \<longrightarrow> py_int x \<le> py_int y)"
proof -
  have a: "(\<exists>w. ShowWarning w \<in> set (emitted s (ocr_selection env s)))
      = (current_image s = None \<or> selection_rect s = None)"
    by (auto simp: ocr_selection_emitted split: option.splits sum.splits)
  have b: "(\<exists>img e. PerformOcr img e \<in> set (emitted s (ocr_selection env s)))
      = (current_image s \<noteq> None \<and> selection_rect s \<noteq> None)"
    by (auto simp: ocr_selection_emitted split: option.splits sum.splits)
  have c: "current_image s = None \<or> selection_rect s = None \<longrightarrow>
        (\<exists>w. ocr_selection env s = emit (ShowWarning w) s)"
    using ocr_selection_warns by blast
  have d: "\<forall>img x1 y1 x2 y2.
        current_image s = Some img \<and> selection_rect s = Some (x1, y1, x2, y2) \<longrightarrow>
        (\<exists>rest. emitted s (ocr_selection env s)
                  = PerformOcr (Crop img (py_int x1) (py_int y1) (py_int x2) (py_int y2))
                      (selected_engine s) # rest
                \<and> (\<forall>i e. PerformOcr i e \<notin> set rest))
        \<and> (\<forall>t. perform_ocr env (Crop img (py_int x1) (py_int y1) (py_int x2) (py_int y2))
                   (selected_engine s) = Inr t \<longrightarrow> text_output (ocr_selection env s) = t)"
    by (auto simp: ocr_selection_emitted ocr_selection_output split: sum.splits)
  show ?thesis
    using a b c d py_int_truncates py_int_mono by blast
qed

theorem ocr_selection_guard_witness:
  "selection_rect demo_open = None
   \<and> (\<exists>w. ocr_selection demo_env demo_open = emit (ShowWarning w) demo_open)
   \<and> \<not> (\<exists>img e. PerformOcr img e \<in> set (emitted demo_open (ocr_selection demo_env demo_open)))
   \<and> current_image demo_selected = Some (Pixmap (lit ''a.pdf'') 0 (3 / 2))
   \<and> selection_rect demo_selected = Some (43 / 4, 20, 52, 181 / 2)
   \<and> \<not> (\<exists>w. ShowWarning w \<in> set (emitted demo_selected (ocr_selection demo_env demo_selected)))
   \<and> (\<exists>rest. emitted demo_selected (ocr_selection demo_env demo_selected)
              = PerformOcr (Crop (Pixmap (lit ''a.pdf'') 0 (3 / 2)) 10 20 52 90) TESSERACT # rest)
   \<and> text_output (ocr_selection demo_env demo_selected) = lit ''text of a region''"
proof -
  note g0 = ocr_selection_guard [of demo_open demo_env]
  note g1 = ocr_selection_guard [of demo_selected demo_env]
  have 1: "\<exists>w. ocr_selection demo_env demo_open = emit (ShowWarning w) demo_open"
    using g0 demo_open_fields(4) by blast
  have 2: "\<not> (\<exists>img e. PerformOcr img e \<in> set (emitted demo_open (ocr_selection demo_env demo_open)))"
    using g0 demo_open_fields(4) by blast
  have 3: "\<not> (\<exists>w. ShowWarning w \<in> set (emitted demo_selected (ocr_selection demo_env demo_selected)))"
    using g1 demo_selected_fields by simp
  note d = g1 [THEN conjunct2, THEN conjunct2, THEN conjunct2, THEN conjunct1, rule_format,
      of "Pixmap (lit ''a.pdf'') 0 (3 / 2)" "43 / 4" 20 52 "181 / 2",
      unfolded demo_crop_ints demo_selected_fields]
  have 4: "\<exists>rest. emitted demo_selected (ocr_selection demo_env demo_selected)
              = PerformOcr (Crop (Pixmap (lit ''a.pdf'') 0 (3 / 2)) 10 20 52 90) TESSERACT # rest"
    using d by blast
  have 5: "text_output (ocr_selection demo_env demo_selected) = lit ''text of a region''"
    using d demo_region_text by blast
  show ?thesis using 1 2 3 4 5 demo_open_fields(4) demo_selected_fields by simp
qed

text \<open>
  C2. With a usable document of \<open>page_count d\<close> pages open and an engine that returns
  the text \<open>t p\<close> for the rendering of each page \<open>p\<close>, \<open>ocr_entire_document\<close> fills
  the output pane with the text of the specification: one section per page, headed
  \<open>--- Page 1 ---\<close> to \<open>--- Page pageCount ---\<close> in this order, each header followed
  by the text of its page, a blank line between two sections. The pages are rendered and
  recognized in the order \<open>0, ..., pageCount - 1\<close>, each with \<open>fitz.Matrix(1.5, 1.5)\<close>;
  the zoom level of the viewer changes neither the calls nor the text.
\<close>

theorem whole_document_ocr:
  assumes "viewing s" and "pdf_document s = Some d"
    and "\<forall>p<page_count d.
           perform_ocr env (Pixmap (doc_name d) p (3 / 2)) (selected_engine s) = Inr (t p)"
  shows "text_output (ocr_entire_document env s) = spec_sections 1 (map t [0 ..< page_count d])
       \<and> text_output (ocr_entire_document env s)
           = py_join [10] (map (\<lambda>p. page_entry (int p) (t p)) [0 ..< page_count d])
       \<and> emitted s (ocr_entire_document env s)
           = concat (map (\<lambda>p. [GetPixmap (doc_name d) p (3 / 2),
                                PerformOcr (Pixmap (doc_name d) p (3 / 2)) (selected_engine s)])
                      [0 ..< page_count d])
       \<and> status_var (ocr_entire_document env s) = OcrComplete (DocumentSource (selected_engine s))
       \<and> text_output (ocr_entire_document env (s\<lparr>zoom_level := z\<rparr>))
           = text_output (ocr_entire_document env s)
       \<and> emitted (s\<lparr>zoom_level := z\<rparr>) (ocr_entire_document env (s\<lparr>zoom_level := z\<rparr>))
           = emitted s (ocr_entire_document env s)"
proof -
  note a = ocr_entire_document_success [OF assms]
  have vz: "viewing (s\<lparr>zoom_level := z\<rparr>)" "pdf_document (s\<lparr>zoom_level := z\<rparr>) = Some d"
    "\<forall>p<page_count d.
       perform_ocr env (Pixmap (doc_name d) p (3 / 2)) (selected_engine (s\<lparr>zoom_level := z\<rparr>))
         = Inr (t p)"
    using assms by (simp_all add: viewing_def)
  note b = ocr_entire_document_success [OF vz]
  have j: "py_join [10] (map (\<lambda>p. page_entry (int p) (t p)) [0 ..< page_count d])
      = spec_sections 1 (map t [0 ..< page_count d])"
    using join_entries_sections [of t 0 "page_count d"] by simp
  have t1: "text_output (ocr_entire_document env s)
           = py_join [10] (map (\<lambda>p. page_entry (int p) (t p)) [0 ..< page_count d])"
    by (subst a(1)) (simp add: display_ocr_result_def)
  have t2: "text_output (ocr_entire_document env (s\<lparr>zoom_level := z\<rparr>))
           = py_join [10] (map (\<lambda>p. page_entry (int p) (t p)) [0 ..< page_count d])"
    by (subst b(1)) (simp add: display_ocr_result_def)
  have st: "status_var (ocr_entire_document env s) = OcrComplete (DocumentSource (selected_engine s))"
    by (subst a(1)) (simp add: display_ocr_result_def)
  have e1: "emitted s (ocr_entire_document env s)
           = concat (map (\<lambda>p. [GetPixmap (doc_name d) p (3 / 2),
                                PerformOcr (Pixmap (doc_name d) p (3 / 2)) (selected_engine s)])
                      [0 ..< page_count d])"
    unfolding emitted_def a(2) by simp
  have e2: "emitted (s\<lparr>zoom_level := z\<rparr>) (ocr_entire_document env (s\<lparr>zoom_level := z\<rparr>))
           = concat (map (\<lambda>p. [GetPixmap (doc_name d) p (3 / 2),
                                PerformOcr (Pixmap (doc_name d) p (3 / 2)) (selected_engine s)])
                      [0 ..< page_count d])"
    unfolding emitted_def b(2) by simp
  show ?thesis
    using t1 t2 st e1 e2 j by simp
qed

theorem whole_document_ocr_witness:
  "viewing demo_open
   \<and> pdf_document demo_open = Some \<lparr>doc_name = lit ''a.pdf'', page_count = 3, is_closed = False\<rparr>
   \<and> text_output (ocr_entire_document demo_env demo_open)
       = lit ''--- Page 1 ---\<newline>text of page 0\<newline>\<newline>--- Page 2 ---\<newline>text of page 1\<newline>\<newline>--- Page 3 ---\<newline>text of page 2\<newline>''
   \<and> emitted demo_open (ocr_entire_document demo_env demo_open)
       = [GetPixmap (lit ''a.pdf'') 0 (3 / 2), PerformOcr (Pixmap (lit ''a.pdf'') 0 (3 / 2)) TESSERACT,
          GetPixmap (lit ''a.pdf'') 1 (3 / 2), PerformOcr (Pixmap (lit ''a.pdf'') 1 (3 / 2)) TESSERACT,
          GetPixmap (lit ''a.pdf'') 2 (3 / 2), PerformOcr (Pixmap (lit ''a.pdf'') 2 (3 / 2)) TESSERACT]
   \<and> text_output (ocr_entire_document demo_env (demo_open\<lparr>zoom_level := 3\<rparr>))
       = text_output (ocr_entire_document demo_env demo_open)"
proof -
  let ?d = "\<lparr>doc_name = lit ''a.pdf'', page_count = 3, is_closed = False\<rparr>"
  have ok: "\<forall>p<page_count ?d.
      perform_ocr demo_env (Pixmap (doc_name ?d) p (3 / 2)) (selected_engine demo_open)
        = Inr (lit ''text of page '' @ digits p)"
    by (simp add: demo_open_fields demo_page_text)
  note w = whole_document_ocr [OF demo_open_viewing demo_open_document ok, of 3]
  have 1: "text_output (ocr_entire_document demo_env demo_open)
       = lit ''--- Page 1 ---\<newline>text of page 0\<newline>\<newline>--- Page 2 ---\<newline>text of page 1\<newline>\<newline>--- Page 3 ---\<newline>text of page 2\<newline>''"
    using w by (simp add: upt_0_3 spec_header_def digits_small lit_def)
  have 2: "emitted demo_open (ocr_entire_document demo_env demo_open)
       = [GetPixmap (lit ''a.pdf'') 0 (3 / 2), PerformOcr (Pixmap (lit ''a.pdf'') 0 (3 / 2)) TESSERACT,
          GetPixmap (lit ''a.pdf'') 1 (3 / 2), PerformOcr (Pixmap (lit ''a.pdf'') 1 (3 / 2)) TESSERACT,
          GetPixmap (lit ''a.pdf'') 2 (3 / 2), PerformOcr (Pixmap (lit ''a.pdf'') 2 (3 / 2)) TESSERACT]"
    using w by (simp add: upt_0_3 demo_open_fields)
  have 3: "text_output (ocr_entire_document demo_env (demo_open\<lparr>zoom_level := 3\<rparr>))
       = text_output (ocr_entire_document demo_env demo_open)"
    using w by simp
  show ?thesis using 1 2 3 demo_open_viewing demo_open_document by simp
qed

text \<open>
  C6 does not hold of the code. After a load that failed (see C1) the closed document
  is still installed, with the bitmap and the selection rectangle of before. \<open>zoom_in\<close>
  then changes the zoom level from 1.0 to 1.25, but \<open>display_page\<close> raises
  "document closed" at its first line, before the lines that clear the selection: nothing
  is rendered, the rectangle stays, and \<open>ocr_selection\<close> crops the stale bitmap and calls
  the engine instead of showing the warning. With a usable document the selection is
  cleared, as \<open>selection_cleared_when_usable\<close> shows.
\<close>

theorem zoom_after_failed_load_keeps_selection:
  "run demo_env [OpenPdf (lit ''a.pdf''), MousePress (43 / 4, 20), MouseRelease (52, 181 / 2),
                 OpenPdf (lit ''b.pdf'')]
     (initial [TESSERACT, EASYOCR] TESSERACT) = demo_stale
   \<and> selection_rect demo_stale = Some (43 / 4, 20, 52, 181 / 2)
   \<and> current_image demo_stale = Some (Pixmap (lit ''a.pdf'') 0 (3 / 2))
   \<and> zoom_level demo_stale = 1
   \<and> zoom_level (zoom_in demo_stale) = 5 / 4
   \<and> emitted demo_stale (zoom_in demo_stale) = [CallbackException doc_closed_error]
   \<and> current_image (zoom_in demo_stale) = Some (Pixmap (lit ''a.pdf'') 0 (3 / 2))
   \<and> selection_rect (zoom_in demo_stale) = Some (43 / 4, 20, 52, 181 / 2)
   \<and> emitted (zoom_in demo_stale) (ocr_selection demo_env (zoom_in demo_stale))
       = [PerformOcr (Crop (Pixmap (lit ''a.pdf'') 0 (3 / 2)) 10 20 52 90) TESSERACT]"
proof -
  have z: "zoom_level (zoom_in demo_stale) = 5 / 4"
    by (simp add: demo_stale_fields)
  have e: "emitted demo_stale (zoom_in demo_stale) = [CallbackException doc_closed_error]"
    by (simp add: demo_stale_zoom_in uncaught_def emitted_def)
  have f: "current_image (zoom_in demo_stale) = Some (Pixmap (lit ''a.pdf'') 0 (3 / 2))"
    "selection_rect (zoom_in demo_stale) = Some (43 / 4, 20, 52, 181 / 2)"
    "selected_engine (zoom_in demo_stale) = TESSERACT"
    by (simp_all add: demo_stale_zoom_in uncaught_def demo_stale_fields)
  have o: "emitted (zoom_in demo_stale) (ocr_selection demo_env (zoom_in demo_stale))
       = [PerformOcr (Crop (Pixmap (lit ''a.pdf'') 0 (3 / 2)) 10 20 52 90) TESSERACT]"
    by (simp add: ocr_selection_emitted f demo_crop_ints demo_region_text)
  show ?thesis
    using z e f o demo_stale_run demo_stale_fields by simp
qed

end
